theory Spec2Isabelle
  imports Complex_Main "HOL-Library.Sublist"
begin

section \<open>The camera stream lifecycle manager of SHAD\<close>

text \<open>
  A shallow embedding of \<^verbatim>\<open>src/js/services/CameraManager.js\<close> (class
  \<^verbatim>\<open>CameraManager\<close>) and of the two helpers it imports from
  \<^verbatim>\<open>utils/helpers.js\<close> (\<^verbatim>\<open>clamp\<close>, \<^verbatim>\<open>calculateGridLayout\<close>).

  The manager runs on the single-threaded event loop of a browser. Every method is
  modelled as a function from the state of the page to its next state. The state holds
  the fields of the manager and the objects it reaches: the session objects
  (\<^verbatim>\<open>CameraData\<close>), the video elements, the HLS.js engine instances, the
  timers and the pending \<^verbatim>\<open>play()\<close> promises. Objects live in stores that only
  grow; an object's identity is its position in its store, so a closure that captured
  an object is modelled by the callback's constructor carrying that position.

  JavaScript numbers are modelled as \<open>int\<close> and \<open>nat\<close> where the code counts, and as
  \<open>real\<close> where it measures (playback positions, the retry delay). The arithmetic of
  the retry delay rounds every result to an IEEE double (\<open>toDouble\<close>); playback positions
  are only compared, with exact arithmetic.
\<close>

subsection \<open>Helpers (utils/helpers.js)\<close>

definition clamp :: "int \<Rightarrow> int \<Rightarrow> int \<Rightarrow> int" where
  "clamp v lo hi = min (max v lo) hi"

record grid_layout =
  columns :: int
  rows :: int

text \<open>The manager's \<^verbatim>\<open>config\<close>: \<^verbatim>\<open>{ columns, rows, numCameras }\<close>.\<close>

record grid_config = grid_layout +
  numCameras :: int

definition calculateGridLayout :: "int \<Rightarrow> grid_layout" where
  "calculateGridLayout numItems0 =
     (let numItems = clamp numItems0 1 18;
          cols = (if numItems \<le> 1 then 1
                  else if numItems \<le> 2 then 2
                  else if numItems \<le> 4 then 2
                  else if numItems \<le> 6 then 3
                  else if numItems \<le> 9 then 3
                  else if numItems \<le> 12 then 4
                  else if numItems \<le> 16 then 4
                  else 6)
      in \<lparr> columns = cols, rows = \<lceil>real_of_int numItems / real_of_int cols\<rceil> \<rparr>)"

text \<open>\<^verbatim>\<open>String.prototype.startsWith\<close> and \<^verbatim>\<open>endsWith\<close>.\<close>

definition startsWith :: "string \<Rightarrow> string \<Rightarrow> bool" where
  "startsWith s p = prefix p s"

definition endsWith :: "string \<Rightarrow> string \<Rightarrow> bool" where
  "endsWith s p = prefix (rev p) (rev s)"

text \<open>Decimal digits of a number, as template literals print it.\<close>

fun showNat :: "nat \<Rightarrow> string" where
  "showNat n = (if n < 10 then [''0123456789'' ! n]
                else showNat (n div 10) @ [''0123456789'' ! (n mod 10)])"

declare showNat.simps [simp del]

text \<open>Reading a store: a position beyond the store holds no object.\<close>

definition lookup :: "'a list \<Rightarrow> nat \<Rightarrow> 'a option" where
  "lookup xs i = (if i < length xs then Some (xs ! i) else None)"

subsection \<open>Numbers\<close>

text \<open>
  A JavaScript number is an IEEE 754 double. \<open>toDouble\<close> rounds a real number to the
  nearest double, a tie going to the double with the even significand, as every
  arithmetic operation of JavaScript does with its exact result. A double other than 0
  is a multiple of \<open>2 ^ (e - 52)\<close>, where \<open>2 ^ e\<close> is the largest power of two not
  above its absolute value (\<open>binExponent\<close>). The limits of the exponent are not
  modelled: no number of the manager comes near them.
\<close>

fun bitlen :: "nat \<Rightarrow> nat" where
  "bitlen n = (if n = 0 then 0 else Suc (bitlen (n div 2)))"

declare bitlen.simps [simp del]

definition pow2 :: "int \<Rightarrow> real" where
  "pow2 e = (if 0 \<le> e then 2 ^ nat e else 1 / 2 ^ nat (- e))"

definition binExponent :: "real \<Rightarrow> int" where
  "binExponent x =
     (if 1 \<le> \<bar>x\<bar> then int (bitlen (nat \<lfloor>\<bar>x\<bar>\<rfloor>)) - 1
      else - int (bitlen (nat (\<lceil>1 / \<bar>x\<bar>\<rceil> - 1))))"

definition roundHalfEven :: "real \<Rightarrow> int" where
  "roundHalfEven x =
     (let f = \<lfloor>x\<rfloor>; r = x - of_int f
      in if r < 1 / 2 then f else if 1 / 2 < r then f + 1 else if even f then f else f + 1)"

definition toDouble :: "real \<Rightarrow> real" where
  "toDouble x =
     (if x = 0 then 0
      else let q = pow2 (binExponent x - 52) in of_int (roundHalfEven (x / q)) * q)"

subsection \<open>Data model\<close>

text \<open>A camera slot's configuration, \<^verbatim>\<open>{url, name}\<close>.\<close>

record camera =
  url :: string
  name :: string

text \<open>
  Closures are modelled by constructors that carry what the closure captured. Positions
  in the stores stand for the captured objects: a session object (\<^verbatim>\<open>cameraData\<close>),
  a slot index, a closure record of the sequencer.
\<close>

datatype media_event = Stalled | VideoError | Waiting | Playing

text \<open>
  Listeners on a video element: the four of \<^verbatim>\<open>createCameraElement\<close> (they capture
  \<^verbatim>\<open>cameraData\<close> and \<^verbatim>\<open>index\<close>) and the \<^verbatim>\<open>onPlaying\<close> of
  \<^verbatim>\<open>initNextCamera\<close> (it captures the variables of that call, kept in a closure
  record).
\<close>

datatype listener =
    OnStalled nat nat
  | OnError nat nat
  | OnWaiting nat
  | OnPlaying nat
  | SeqOnPlaying nat

fun listensTo :: "listener \<Rightarrow> media_event" where
  "listensTo (OnStalled c i) = Stalled"
| "listensTo (OnError c i) = VideoError"
| "listensTo (OnWaiting c) = Waiting"
| "listensTo (OnPlaying c) = Playing"
| "listensTo (SeqOnPlaying k) = Playing"

text \<open>
  The video element (the sink), with the properties the manager reads and writes.
  \<open>error\<close> is the code of \<^verbatim>\<open>element.error\<close>.
\<close>

record video =
  src :: "string option"
  attributes :: "(string \<times> string) list"
  paused :: bool
  ended :: bool
  readyState :: nat
  currentTime :: real
  error :: "nat option"
  listeners :: "listener list"

text \<open>
  An HLS.js engine instance. The library is not part of the repository: an engine is
  the list of method calls it has received, the events for which a handler is
  registered, what the handlers of \<^verbatim>\<open>initHlsStream\<close> captured
  (\<^verbatim>\<open>cameraData\<close>, \<^verbatim>\<open>index\<close>, \<^verbatim>\<open>camera\<close>), and its
  \<^verbatim>\<open>liveSyncPosition\<close> property.
\<close>

datatype hls_call =
    LoadSource string
  | AttachMedia nat
  | StartLoad
  | StopLoad
  | DetachMedia
  | DestroyEngine
  | RecoverMediaError

text \<open>
  An exception that leaves a method of the manager: the \<^verbatim>\<open>TypeError\<close> of
  \<^verbatim>\<open>applySettings\<close>, or what a call of the engine outside any \<^verbatim>\<open>try\<close> threw.
\<close>

datatype js_error = TypeError | EngineThrew hls_call

datatype hls_event_name = MEDIA_ATTACHED | MANIFEST_PARSED | ERROR | FRAG_BUFFERED | LEVEL_LOADED

datatype hls_error_type = NETWORK_ERROR | MEDIA_ERROR | KEY_SYSTEM_ERROR | MUX_ERROR | OTHER_ERROR

record engine =
  calls :: "hls_call list"
  handlers :: "hls_event_name list"
  ownerData :: nat
  ownerIndex :: nat
  ownerCamera :: camera
  liveSyncPosition :: "real option"

text \<open>The session object, \<^verbatim>\<open>CameraData\<close>.\<close>

record cameraData =
  hls :: "nat option"
  element :: nat
  retryTimeout :: "nat option"
  retryCount :: nat
  isDestroyed :: bool
  eventCleanups :: "(nat \<times> hls_event_name) list"
  lastPlaybackTime :: real
  lastCheckTime :: nat
  stallCount :: nat
  videoEventCleanups :: "listener list"
  initTimeout :: "nat option"

text \<open>
  The variables of one call of \<^verbatim>\<open>initNextCamera\<close> that its two handlers share:
  \<^verbatim>\<open>index\<close>, \<^verbatim>\<open>element\<close>, \<^verbatim>\<open>resolved\<close>, \<^verbatim>\<open>timeoutId\<close>.
\<close>

record seq_closure =
  seqIndex :: nat
  seqElement :: nat
  resolved :: bool
  timeoutId :: nat

text \<open>Timer callbacks, one constructor for each arrow function given to a timer.\<close>

datatype callback =
    HealthFirstCheck
  | HealthTick
  | RecoverReinit nat nat camera
  | ResumeMonitor
  | SeqNext
  | SeqTimeout nat
  | RetryCooldown nat nat camera
  | RetryBackoff nat nat camera

record timer =
  callback :: callback
  delay :: real
  setAt :: nat
  repeats :: bool
  pending :: bool

text \<open>
  The reactions attached to the promise of \<^verbatim>\<open>element.play()\<close>: logging only;
  \<^verbatim>\<open>scheduleRetry(index, camera)\<close> on rejection; or the pair of
  \<^verbatim>\<open>onMediaAttached\<close>.
\<close>

datatype reaction =
    LogOnly
  | RetryOnReject nat camera
  | AttachedPlay nat nat

record play_promise =
  reaction :: reaction
  settled :: bool

record grid =
  children :: "nat list"
  gridTemplateColumns :: int
  gridTemplateRows :: int

text \<open>
  The state: the fields of the \<^verbatim>\<open>CameraManager\<close> instance, the stores of the
  objects it reaches, and the environment it reads (the clock of \<^verbatim>\<open>Date.now()\<close>,
  the values \<^verbatim>\<open>Math.random()\<close> will return, whether HLS.js is present and
  supported, whether the element plays HLS natively, and which engine calls throw).
  \<open>cameras\<close> is the \<^verbatim>\<open>Map\<close> from slot index to session object, in insertion
  order. \<open>visibilityHandler\<close> tells whether the handler is registered at the document.
\<close>

record world =
  cameras :: "(nat \<times> nat) list"
  gridElement :: "grid option"
  config :: grid_config
  cameraConfigs :: "camera list"
  isPageVisible :: bool
  visibilityHandler :: bool
  isHDMode :: bool
  healthCheckInterval :: "nat option"
  initQueue :: "(nat \<times> camera) list"
  isInitializing :: bool
  sessions :: "cameraData list"
  videos :: "video list"
  engines :: "engine list"
  timers :: "timer list"
  closures :: "seq_closure list"
  promises :: "play_promise list"
  clock :: nat
  randoms :: "nat \<Rightarrow> real"
  randomsUsed :: nat
  hlsSupported :: bool
  nativeHls :: bool
  engineThrows :: "nat \<Rightarrow> hls_call \<Rightarrow> bool"

text \<open>The constants the constructor sets and nothing changes.\<close>

definition HEALTH_CHECK_INTERVAL_MS :: nat where "HEALTH_CHECK_INTERVAL_MS = 5000"
definition MAX_STALL_COUNT :: nat where "MAX_STALL_COUNT = 2"
definition SEQUENTIAL_TIMEOUT_MS :: nat where "SEQUENTIAL_TIMEOUT_MS = 15000"
definition maxRetryDelay :: real where "maxRetryDelay = 120000"
definition baseRetryDelay :: real where "baseRetryDelay = 3000"
definition maxRetryAttempts :: nat where "maxRetryAttempts = 10"

subsection \<open>Stores, timers, the video element, the engine\<close>

definition updSession :: "nat \<Rightarrow> (cameraData \<Rightarrow> cameraData) \<Rightarrow> world \<Rightarrow> world" where
  "updSession c f w = w\<lparr>sessions := (sessions w)[c := f (sessions w ! c)]\<rparr>"

definition updVideo :: "nat \<Rightarrow> (video \<Rightarrow> video) \<Rightarrow> world \<Rightarrow> world" where
  "updVideo e f w = w\<lparr>videos := (videos w)[e := f (videos w ! e)]\<rparr>"

definition updEngine :: "nat \<Rightarrow> (engine \<Rightarrow> engine) \<Rightarrow> world \<Rightarrow> world" where
  "updEngine h f w = w\<lparr>engines := (engines w)[h := f (engines w ! h)]\<rparr>"

definition updTimer :: "nat \<Rightarrow> (timer \<Rightarrow> timer) \<Rightarrow> world \<Rightarrow> world" where
  "updTimer t f w = w\<lparr>timers := (timers w)[t := f (timers w ! t)]\<rparr>"

definition updClosure :: "nat \<Rightarrow> (seq_closure \<Rightarrow> seq_closure) \<Rightarrow> world \<Rightarrow> world" where
  "updClosure k f w = w\<lparr>closures := (closures w)[k := f (closures w ! k)]\<rparr>"

text \<open>\<^verbatim>\<open>this.cameras.get(index)\<close>, with the object it refers to.\<close>

definition getCamera :: "world \<Rightarrow> nat \<Rightarrow> (nat \<times> cameraData) option" where
  "getCamera w index =
     (case map_of (cameras w) index of
        None \<Rightarrow> None
      | Some c \<Rightarrow> (case lookup (sessions w) c of None \<Rightarrow> None | Some d \<Rightarrow> Some (c, d)))"

text \<open>\<^verbatim>\<open>Map.prototype.set\<close>: a present key keeps its place, a new one goes last.\<close>

definition mapSet :: "nat \<Rightarrow> nat \<Rightarrow> (nat \<times> nat) list \<Rightarrow> (nat \<times> nat) list" where
  "mapSet k v m =
     (if k \<in> fst ` set m then map (\<lambda>(k', v'). if k' = k then (k', v) else (k', v')) m
      else m @ [(k, v)])"

text \<open>
  \<^verbatim>\<open>setTimeout\<close> and \<^verbatim>\<open>setInterval\<close> return the handle of the new timer, here
  its position \<open>nextTimer\<close>; \<^verbatim>\<open>clearTimeout\<close> and \<^verbatim>\<open>clearInterval\<close> take it
  out of service.
\<close>

definition nextTimer :: "world \<Rightarrow> nat" where
  "nextTimer w = length (timers w)"

definition setTimeout :: "callback \<Rightarrow> real \<Rightarrow> world \<Rightarrow> world" where
  "setTimeout cb d w =
     w\<lparr>timers := timers w @
        [\<lparr>callback = cb, delay = d, setAt = clock w, repeats = False, pending = True\<rparr>]\<rparr>"

definition setInterval :: "callback \<Rightarrow> real \<Rightarrow> world \<Rightarrow> world" where
  "setInterval cb d w =
     w\<lparr>timers := timers w @
        [\<lparr>callback = cb, delay = d, setAt = clock w, repeats = True, pending = True\<rparr>]\<rparr>"

definition clearTimeout :: "nat \<Rightarrow> world \<Rightarrow> world" where
  "clearTimeout t w = updTimer t (\<lambda>x. x\<lparr>pending := False\<rparr>) w"

text \<open>\<^verbatim>\<open>Math.random()\<close>: the next value of the environment's supply.\<close>

definition mathRandom :: "world \<Rightarrow> real" where
  "mathRandom w = randoms w (randomsUsed w)"

definition nextRandom :: "world \<Rightarrow> world" where
  "nextRandom w = w\<lparr>randomsUsed := Suc (randomsUsed w)\<rparr>"

text \<open>
  The methods of the video element that the manager calls, by what the HTML standard
  has them do at once to the properties the manager reads: \<^verbatim>\<open>pause()\<close> sets
  \<open>paused\<close>, \<^verbatim>\<open>play()\<close> clears it, \<^verbatim>\<open>load()\<close> resets the element, and
  assigning \<^verbatim>\<open>src\<close> runs the load algorithm. None of them throws. What the
  element does later (playing, stalling, progress of \<open>currentTime\<close>) comes from the
  environment, as events.
\<close>

definition pauseVideo :: "video \<Rightarrow> video" where
  "pauseVideo v = v\<lparr>paused := True\<rparr>"

definition loadVideo :: "video \<Rightarrow> video" where
  "loadVideo v = v\<lparr>paused := True, ended := False, readyState := 0, currentTime := 0, error := None\<rparr>"

definition setSrc :: "string \<Rightarrow> video \<Rightarrow> video" where
  "setSrc u v = loadVideo (v\<lparr>src := Some u\<rparr>)"

definition removeSrc :: "video \<Rightarrow> video" where
  "removeSrc v = v\<lparr>src := None\<rparr>"

definition setAttribute :: "string \<Rightarrow> string \<Rightarrow> video \<Rightarrow> video" where
  "setAttribute k x v = v\<lparr>attributes := (k, x) # filter (\<lambda>a. fst a \<noteq> k) (attributes v)\<rparr>"

definition addEventListener :: "listener \<Rightarrow> video \<Rightarrow> video" where
  "addEventListener l v = v\<lparr>listeners := listeners v @ [l]\<rparr>"

definition removeEventListener :: "listener \<Rightarrow> video \<Rightarrow> video" where
  "removeEventListener l v = v\<lparr>listeners := filter (\<lambda>x. x \<noteq> l) (listeners v)\<rparr>"

text \<open>\<^verbatim>\<open>element.play()\<close> with the reactions attached to the promise it returns.\<close>

definition play :: "nat \<Rightarrow> reaction \<Rightarrow> world \<Rightarrow> world" where
  "play e r w =
     (updVideo e (\<lambda>v. v\<lparr>paused := False\<rparr>) w)
       \<lparr>promises := promises w @ [\<lparr>reaction = r, settled = False\<rparr>]\<rparr>"

text \<open>A method call on an engine: the engine records it.\<close>

definition callEngine :: "nat \<Rightarrow> hls_call \<Rightarrow> world \<Rightarrow> world" where
  "callEngine h x w = updEngine h (\<lambda>g. g\<lparr>calls := calls g @ [x]\<rparr>) w"

definition hlsOff :: "nat \<times> hls_event_name \<Rightarrow> world \<Rightarrow> world" where
  "hlsOff hn w = updEngine (fst hn) (\<lambda>g. g\<lparr>handlers := filter (\<lambda>x. x \<noteq> snd hn) (handlers g)\<rparr>) w"

subsection \<open>Health monitor: start and stop\<close>

definition stopHealthMonitor :: "world \<Rightarrow> world" where
  "stopHealthMonitor w =
     (case healthCheckInterval w of
        None \<Rightarrow> w
      | Some t \<Rightarrow> (clearTimeout t w)\<lparr>healthCheckInterval := None\<rparr>)"

definition startHealthMonitor :: "world \<Rightarrow> world" where
  "startHealthMonitor w =
     (let w1 = stopHealthMonitor w;
          w2 = setTimeout HealthFirstCheck 2000 w1;
          t = nextTimer w2;
          w3 = setInterval HealthTick (real HEALTH_CHECK_INTERVAL_MS) w2
      in w3\<lparr>healthCheckInterval := Some t\<rparr>)"

subsection \<open>Releasing an engine, placeholders, retries\<close>

text \<open>
  The \<^verbatim>\<open>try\<close> block of \<^verbatim>\<open>cleanupHls\<close>: \<^verbatim>\<open>stopLoad\<close>, \<^verbatim>\<open>detachMedia\<close>,
  \<^verbatim>\<open>destroy\<close>; a call that throws ends the block, and the exception is swallowed.
\<close>

definition releaseEngine :: "nat \<Rightarrow> world \<Rightarrow> world" where
  "releaseEngine h w =
     (let w1 = callEngine h StopLoad w in
      if engineThrows w h StopLoad then w1
      else let w2 = callEngine h DetachMedia w1 in
        if engineThrows w h DetachMedia then w2
        else callEngine h DestroyEngine w2)"

definition cleanupHls :: "nat \<Rightarrow> world \<Rightarrow> world" where
  "cleanupHls c w =
     (case lookup (sessions w) c of
        None \<Rightarrow> w
      | Some d \<Rightarrow>
          let w1 = updSession c (\<lambda>x. x\<lparr>eventCleanups := []\<rparr>) (fold hlsOff (eventCleanups d) w)
          in (case hls d of
                None \<Rightarrow> w1
              | Some h \<Rightarrow> updSession c (\<lambda>x. x\<lparr>hls := None\<rparr>) (releaseEngine h w1)))"

definition cameraLabel :: "world \<Rightarrow> nat \<Rightarrow> string" where
  "cameraLabel w index =
     (case lookup (cameraConfigs w) index of
        None \<Rightarrow> ''Camera '' @ showNat (index + 1)
      | Some camera \<Rightarrow>
          if name camera = [] then ''Camera '' @ showNat (index + 1) else name camera)"

definition setPlaceholder :: "nat \<Rightarrow> string \<Rightarrow> world \<Rightarrow> world" where
  "setPlaceholder index message w =
     (case getCamera w index of
        None \<Rightarrow> w
      | Some (c, d) \<Rightarrow>
          if isDestroyed d then w
          else let label = cameraLabel w index;
                   placeholder = (if message = [] then label else label @ [CHR 0x0A] @ message)
               in updVideo (element d) (setAttribute ''data-placeholder'' placeholder) w)"

text \<open>
  \<^verbatim>\<open>scheduleRetry\<close>. The delay is
  \<^verbatim>\<open>Math.min(baseRetryDelay * Math.pow(1.5, retryCount) + Math.random() * 1000, maxRetryDelay)\<close>,
  computed in doubles: the power, the product, the jitter and the sum are each rounded.
  \<^verbatim>\<open>Math.pow\<close> is taken to return the double nearest to the power.
\<close>

definition scheduleRetry :: "nat \<Rightarrow> camera \<Rightarrow> world \<Rightarrow> world" where
  "scheduleRetry index camera w =
     (case getCamera w index of
        None \<Rightarrow> w
      | Some (c, d) \<Rightarrow>
          if isDestroyed d then w
          else
            let w1 = (case retryTimeout d of
                        None \<Rightarrow> w
                      | Some t \<Rightarrow> updSession c (\<lambda>x. x\<lparr>retryTimeout := None\<rparr>) (clearTimeout t w))
            in if retryCount d \<ge> maxRetryAttempts then
                 let w2 = updSession c (\<lambda>x. x\<lparr>retryCount := 0\<rparr>) w1;
                     t = nextTimer w2;
                     w3 = setTimeout (RetryCooldown c index camera) 300000 w2
                 in updSession c (\<lambda>x. x\<lparr>retryTimeout := Some t\<rparr>) w3
               else
                 let baseDelay = toDouble (baseRetryDelay * toDouble ((3 / 2) ^ retryCount d));
                     jitter = toDouble (mathRandom w1 * 1000);
                     w2 = nextRandom w1;
                     retryDelay = min (toDouble (baseDelay + jitter)) maxRetryDelay;
                     w3 = updSession c (\<lambda>x. x\<lparr>retryCount := retryCount x + 1\<rparr>) w2;
                     t = nextTimer w3;
                     w4 = setTimeout (RetryBackoff c index camera) retryDelay w3
                 in updSession c (\<lambda>x. x\<lparr>retryTimeout := Some t\<rparr>) w4)"

subsection \<open>Stream initializer\<close>

definition addCacheBuster :: "world \<Rightarrow> string \<Rightarrow> string" where
  "addCacheBuster w u =
     u @ (if CHR ''?'' \<in> set u then ''&'' else ''?'') @ ''_cb='' @ showNat (clock w)"

definition allHlsEvents :: "hls_event_name list" where
  "allHlsEvents = [MEDIA_ATTACHED, MANIFEST_PARSED, ERROR, FRAG_BUFFERED, LEVEL_LOADED]"

text \<open>
  \<^verbatim>\<open>initHlsStream\<close>: release the old engine, make a new one with the five handlers,
  then \<^verbatim>\<open>loadSource\<close> and \<^verbatim>\<open>attachMedia\<close> in a \<^verbatim>\<open>try\<close> whose
  \<^verbatim>\<open>catch\<close> sets a placeholder and schedules a retry.
\<close>

definition initHlsStream :: "nat \<Rightarrow> camera \<Rightarrow> world \<Rightarrow> world" where
  "initHlsStream index camera w =
     (case getCamera w index of
        None \<Rightarrow> w
      | Some (c, d) \<Rightarrow>
          if isDestroyed d then w
          else
            let w1 = cleanupHls c w;
                h = length (engines w1);
                w2 = w1\<lparr>engines := engines w1 @
                       [\<lparr>calls = [], handlers = allHlsEvents, ownerData = c, ownerIndex = index,
                         ownerCamera = camera, liveSyncPosition = None\<rparr>]\<rparr>;
                w3 = updSession c (\<lambda>x. x\<lparr>hls := Some h, eventCleanups := map (Pair h) allHlsEvents\<rparr>) w2;
                failed = (\<lambda>v. scheduleRetry index camera
                                 (setPlaceholder index ''Error initializing feed'' v));
                cacheBustUrl = addCacheBuster w3 (url camera);
                w4 = callEngine h (LoadSource cacheBustUrl) w3
            in if engineThrows w h (LoadSource cacheBustUrl) then failed w4
               else let w5 = callEngine h (AttachMedia (element d)) w4
                    in if engineThrows w h (AttachMedia (element d)) then failed w5 else w5)"

definition initializeStream :: "nat \<Rightarrow> camera \<Rightarrow> world \<Rightarrow> world" where
  "initializeStream index camera w =
     (case getCamera w index of
        None \<Rightarrow> w
      | Some (c, d) \<Rightarrow>
          if isDestroyed d then w
          else if \<not> isPageVisible w then w
          else if startsWith (url camera) ''rtsp://'' then
            play (element d) LogOnly (updVideo (element d) (setSrc (url camera)) w)
          else if endsWith (url camera) ''.m3u8'' then
            (if hlsSupported w then initHlsStream index camera w
             else if nativeHls w then
               play (element d) (RetryOnReject index camera)
                 (updVideo (element d) (setSrc (url camera)) w)
             else setPlaceholder index ''HLS not supported'' w)
          else
            play (element d) (RetryOnReject index camera)
              (updVideo (element d) (setSrc (url camera)) w))"

subsection \<open>Recovery and the health check\<close>

definition recoverCamera :: "nat \<Rightarrow> camera \<Rightarrow> world \<Rightarrow> world" where
  "recoverCamera index camera w =
     (case getCamera w index of
        None \<Rightarrow> w
      | Some (c, d) \<Rightarrow>
          if isDestroyed d then w
          else
            let w1 = updSession c (\<lambda>x. x\<lparr>stallCount := 0, lastPlaybackTime := 0,
                                          lastCheckTime := 0, retryCount := 0\<rparr>) w;
                w2 = cleanupHls c w1;
                w3 = updVideo (element d) (\<lambda>v. loadVideo (removeSrc (pauseVideo v))) w2
            in setTimeout (RecoverReinit c index camera) 1000 w3)"

text \<open>
  The body of the \<^verbatim>\<open>forEach\<close> of \<^verbatim>\<open>checkAllCameraHealth\<close> for one entry of the
  map. \<open>bump\<close> is \<^verbatim>\<open>cameraData.stallCount = (cameraData.stallCount || 0) + 1\<close>;
  \<open>finish\<close> is the end of the body: recover if needed, then store \<open>currentTime\<close>.
\<close>

definition checkCameraHealth :: "nat \<Rightarrow> nat \<times> nat \<Rightarrow> world \<Rightarrow> world" where
  "checkCameraHealth now ic w =
     (let index = fst ic; c = snd ic in
      case lookup (sessions w) c of
        None \<Rightarrow> w
      | Some d \<Rightarrow>
          if isDestroyed d then w
          else (case lookup (cameraConfigs w) index of
            None \<Rightarrow> w
          | Some camera \<Rightarrow>
              if url camera = [] then w
              else (case lookup (videos w) (element d) of
                None \<Rightarrow> w
              | Some el \<Rightarrow>
                  if retryTimeout d \<noteq> None \<or> isInitializing w then w
                  else
                    let lastTime = lastPlaybackTime d;
                        lastCheck = (if lastCheckTime d = 0 then now else lastCheckTime d);
                        timeSinceLastCheck = int now - int lastCheck;
                        w1 = updSession c (\<lambda>x. x\<lparr>lastCheckTime := now\<rparr>) w;
                        hasProgressed = (\<bar>currentTime el - lastTime\<bar> > 1 / 10);
                        isPlaying = (\<not> paused el \<and> \<not> ended el);
                        hasEnoughData = (readyState el \<ge> 2);
                        hasHls = (hls d \<noteq> None);
                        longEnough = (timeSinceLastCheck \<ge> int HEALTH_CHECK_INTERVAL_MS - 500);
                        bump = updSession c (\<lambda>x. x\<lparr>stallCount := stallCount x + 1\<rparr>);
                        finish = (\<lambda>needsRecovery v.
                           updSession c (\<lambda>x. x\<lparr>lastPlaybackTime := currentTime el\<rparr>)
                             (if needsRecovery then recoverCamera index camera v else v))
                    in if \<not> hasHls \<and> endsWith (url camera) ''.m3u8'' then finish True w1
                       else if error el \<noteq> None then finish True w1
                       else if isPlaying \<and> hasEnoughData \<and> \<not> hasProgressed \<and> longEnough then
                         finish (stallCount d + 1 \<ge> MAX_STALL_COUNT) (bump w1)
                       else if \<not> hasEnoughData \<and> hasHls \<and> longEnough then
                         finish (stallCount d + 1 \<ge> MAX_STALL_COUNT) (bump w1)
                       else if \<not> isPlaying \<and> hasHls then
                         (if stallCount d + 1 \<ge> MAX_STALL_COUNT then finish True (bump w1)
                          else finish False (play (element d) LogOnly (bump w1)))
                       else if hasProgressed then
                         finish False (updSession c (\<lambda>x. x\<lparr>stallCount := 0\<rparr>) w1)
                       else finish False w1)))"

definition checkAllCameraHealth :: "world \<Rightarrow> world" where
  "checkAllCameraHealth w =
     (if \<not> isPageVisible w then w else fold (checkCameraHealth (clock w)) (cameras w) w)"

subsection \<open>Page visibility: pausing and resuming\<close>

text \<open>The body of the \<^verbatim>\<open>forEach\<close> of \<^verbatim>\<open>pauseAllStreams\<close>.\<close>

definition pauseOne :: "nat \<times> nat \<Rightarrow> world \<Rightarrow> world" where
  "pauseOne ic w =
     (let c = snd ic in
      case lookup (sessions w) c of
        None \<Rightarrow> w
      | Some d \<Rightarrow>
          if isDestroyed d then w
          else
            let w1 = (case retryTimeout d of
                        None \<Rightarrow> w
                      | Some t \<Rightarrow> updSession c (\<lambda>x. x\<lparr>retryTimeout := None\<rparr>) (clearTimeout t w));
                w2 = (case hls d of None \<Rightarrow> w1 | Some h \<Rightarrow> callEngine h StopLoad w1)
            in (case lookup (videos w2) (element d) of
                  None \<Rightarrow> w2
                | Some v \<Rightarrow> if \<not> paused v then updVideo (element d) pauseVideo w2 else w2))"

definition pauseAllStreams :: "world \<Rightarrow> world" where
  "pauseAllStreams w = fold pauseOne (cameras w) (stopHealthMonitor w)"

subsection \<open>Sequencer\<close>

text \<open>
  \<^verbatim>\<open>initNextCamera\<close> calls itself when it skips a slot. The recursion is on the
  queue, which the function takes as an argument here and keeps equal to the field
  \<open>initQueue\<close>: the first equation is the branch \<^verbatim>\<open>initQueue.length === 0\<close>, the
  second starts with \<^verbatim>\<open>initQueue.shift()\<close>.
\<close>

fun initNextFrom :: "(nat \<times> camera) list \<Rightarrow> world \<Rightarrow> world" where
  "initNextFrom [] w =
     (let w1 = w\<lparr>isInitializing := False\<rparr>
      in if isPageVisible w1 \<and> healthCheckInterval w1 = None then startHealthMonitor w1 else w1)"
| "initNextFrom (ic # rest) w =
     (let index = fst ic; camera = snd ic; w1 = w\<lparr>initQueue := rest\<rparr> in
      case getCamera w1 index of
        None \<Rightarrow> initNextFrom rest w1
      | Some (c, d) \<Rightarrow>
          if isDestroyed d \<or> \<not> isPageVisible w1 then initNextFrom rest w1
          else
            let k = length (closures w1);
                t = nextTimer w1;
                w2 = w1\<lparr>closures := closures w1 @
                       [\<lparr>seqIndex = index, seqElement = element d, resolved = False, timeoutId = t\<rparr>]\<rparr>;
                w3 = updVideo (element d) (addEventListener (SeqOnPlaying k)) w2;
                w4 = setTimeout (SeqTimeout k) (real SEQUENTIAL_TIMEOUT_MS) w3;
                w5 = updSession c (\<lambda>x. x\<lparr>initTimeout := Some t\<rparr>) w4
            in initializeStream index camera w5)"

definition initNextCamera :: "world \<Rightarrow> world" where
  "initNextCamera w = initNextFrom (initQueue w) w"

definition sequentialInit :: "(nat \<times> camera) list \<Rightarrow> world \<Rightarrow> world" where
  "sequentialInit cams w =
     (if cams = [] then
        (let w1 = w\<lparr>isInitializing := False\<rparr>
         in if isPageVisible w1 \<and> healthCheckInterval w1 = None then startHealthMonitor w1 else w1)
      else initNextCamera (w\<lparr>isInitializing := True, initQueue := cams\<rparr>))"

text \<open>The two handlers that \<^verbatim>\<open>initNextCamera\<close> creates for the slot it starts.\<close>

definition seqOnPlaying :: "nat \<Rightarrow> world \<Rightarrow> world" where
  "seqOnPlaying k w =
     (case lookup (closures w) k of
        None \<Rightarrow> w
      | Some cl \<Rightarrow>
          if resolved cl then w
          else
            let w1 = updClosure k (\<lambda>x. x\<lparr>resolved := True\<rparr>) w;
                w2 = clearTimeout (timeoutId cl) w1;
                w3 = updVideo (seqElement cl) (removeEventListener (SeqOnPlaying k)) w2
            in setTimeout SeqNext 500 w3)"

definition seqOnTimeout :: "nat \<Rightarrow> world \<Rightarrow> world" where
  "seqOnTimeout k w =
     (case lookup (closures w) k of
        None \<Rightarrow> w
      | Some cl \<Rightarrow>
          if resolved cl then w
          else
            let w1 = updClosure k (\<lambda>x. x\<lparr>resolved := True\<rparr>) w;
                w2 = updVideo (seqElement cl) (removeEventListener (SeqOnPlaying k)) w1
            in initNextCamera w2)"

text \<open>
  \<^verbatim>\<open>resumeAllStreams\<close>: the \<^verbatim>\<open>forEach\<close> resets every live session with a URL and
  collects it in \<^verbatim>\<open>camerasToResume\<close>.
\<close>

definition resumeOne :: "nat \<times> nat \<Rightarrow> world \<times> (nat \<times> camera) list \<Rightarrow> world \<times> (nat \<times> camera) list" where
  "resumeOne ic wa =
     (let index = fst ic; c = snd ic; w = fst wa; camerasToResume = snd wa in
      case lookup (sessions w) c of
        None \<Rightarrow> wa
      | Some d \<Rightarrow>
          if isDestroyed d then wa
          else (case lookup (cameraConfigs w) index of
            None \<Rightarrow> wa
          | Some camera \<Rightarrow>
              if url camera = [] then wa
              else
                let w1 = updSession c (\<lambda>x. x\<lparr>stallCount := 0, lastPlaybackTime := 0,
                                              lastCheckTime := 0, retryCount := 0\<rparr>) w;
                    w2 = cleanupHls c w1;
                    w3 = updVideo (element d) (\<lambda>v. loadVideo (removeSrc (pauseVideo v))) w2
                in (w3, camerasToResume @ [(index, camera)])))"

definition initializeAll :: "(nat \<times> camera) list \<Rightarrow> world \<Rightarrow> world" where
  "initializeAll cams w = fold (\<lambda>ic. initializeStream (fst ic) (snd ic)) cams w"

definition resumeAllStreams :: "world \<Rightarrow> world" where
  "resumeAllStreams w =
     (let wa = fold resumeOne (cameras w) (w, []); w1 = fst wa; camerasToResume = snd wa in
      if isHDMode w1 then setTimeout ResumeMonitor 1000 (initializeAll camerasToResume w1)
      else sequentialInit camerasToResume w1)"

text \<open>The handler of \<^verbatim>\<open>visibilitychange\<close>; \<open>hidden\<close> is \<^verbatim>\<open>document.hidden\<close>.\<close>

definition visibilityChange :: "bool \<Rightarrow> world \<Rightarrow> world" where
  "visibilityChange hidden w =
     (if \<not> visibilityHandler w then w
      else let w1 = w\<lparr>isPageVisible := \<not> hidden\<rparr>
           in if isPageVisible w1 then startHealthMonitor (resumeAllStreams w1)
              else stopHealthMonitor (pauseAllStreams w1))"

subsection \<open>Creating and destroying sessions\<close>

definition streamAttributes :: "string \<Rightarrow> video \<Rightarrow> video" where
  "streamAttributes preload v =
     setAttribute ''preload'' preload
       (setAttribute ''playsinline'' []
         (setAttribute ''muted'' [] (setAttribute ''autoplay'' [] v)))"

definition appendChild :: "nat \<Rightarrow> world \<Rightarrow> world" where
  "appendChild e w = w\<lparr>gridElement := map_option (\<lambda>g. g\<lparr>children := children g @ [e]\<rparr>) (gridElement w)\<rparr>"

text \<open>
  \<^verbatim>\<open>createCameraElement\<close> makes a new video element and a new session object and puts
  the session in the map. Its only caller, \<^verbatim>\<open>setupGrid\<close>, has returned before
  when there is no grid element, so the \<^verbatim>\<open>appendChild\<close> at the end finds one.
\<close>

definition createCameraElement :: "nat \<Rightarrow> camera \<Rightarrow> bool \<Rightarrow> world \<Rightarrow> world" where
  "createCameraElement index camera initStream w =
     (let e = length (videos w);
          c = length (sessions w);
          label = (if name camera = [] then ''Camera '' @ showNat (index + 1) else name camera);
          ls = [OnStalled c index, OnError c index, OnWaiting c, OnPlaying c];
          v = \<lparr>src = None,
               attributes = [(''data-placeholder'', label @ [CHR 0x0A] @
                                (if url camera \<noteq> [] then ''Loading...'' else ''No feed configured'')),
                             (''data-camera-index'', showNat index),
                             (''class'', ''camera-feed'')],
               paused = True, ended = False, readyState = 0, currentTime = 0, error = None,
               listeners = ls\<rparr>;
          d = \<lparr>hls = None, element = e, retryTimeout = None, retryCount = 0, isDestroyed = False,
               eventCleanups = [], lastPlaybackTime = 0, lastCheckTime = 0, stallCount = 0,
               videoEventCleanups = ls, initTimeout = None\<rparr>;
          w1 = w\<lparr>videos := videos w @ [v], sessions := sessions w @ [d],
                 cameras := mapSet index c (cameras w)\<rparr>;
          w2 = (if url camera \<noteq> [] \<and> initStream then
                  initializeStream index camera (updVideo e (streamAttributes ''metadata'') w1)
                else if url camera \<noteq> [] then updVideo e (streamAttributes ''none'') w1
                else w1)
      in appendChild e w2)"

definition destroyCamera :: "nat \<Rightarrow> world \<Rightarrow> world" where
  "destroyCamera index w =
     (case getCamera w index of
        None \<Rightarrow> w
      | Some (c, d) \<Rightarrow>
          let w1 = updSession c (\<lambda>x. x\<lparr>isDestroyed := True\<rparr>) w;
              w2 = (case retryTimeout d of
                      None \<Rightarrow> w1
                    | Some t \<Rightarrow> updSession c (\<lambda>x. x\<lparr>retryTimeout := None\<rparr>) (clearTimeout t w1));
              w3 = (case initTimeout d of
                      None \<Rightarrow> w2
                    | Some t \<Rightarrow> updSession c (\<lambda>x. x\<lparr>initTimeout := None\<rparr>) (clearTimeout t w2));
              w4 = cleanupHls c w3;
              w5 = updSession c (\<lambda>x. x\<lparr>videoEventCleanups := []\<rparr>)
                     (updVideo (element d) (fold removeEventListener (videoEventCleanups d)) w4);
              w6 = updVideo (element d) (\<lambda>v. loadVideo (removeSrc (setSrc [] (pauseVideo v)))) w5
          in updSession c (\<lambda>x. x\<lparr>retryCount := 0, stallCount := 0, lastPlaybackTime := 0,
                                   lastCheckTime := 0\<rparr>) w6)"

definition destroyAllCameras :: "world \<Rightarrow> world" where
  "destroyAllCameras w =
     (let w1 = w\<lparr>initQueue := [], isInitializing := False\<rparr>;
          w2 = fold destroyCamera (map fst (cameras w1)) w1;
          w3 = w2\<lparr>gridElement := map_option (\<lambda>g. g\<lparr>children := []\<rparr>) (gridElement w2)\<rparr>
      in w3\<lparr>cameras := []\<rparr>)"

definition destroy :: "world \<Rightarrow> world" where
  "destroy w = (destroyAllCameras (stopHealthMonitor w))\<lparr>visibilityHandler := False\<rparr>"

subsection \<open>Configuration and the grid\<close>

definition init :: "world \<Rightarrow> world" where
  "init w = w\<lparr>gridElement := Some \<lparr>children = [], gridTemplateColumns = 0, gridTemplateRows = 0\<rparr>\<rparr>"

definition setHDMode :: "bool \<Rightarrow> world \<Rightarrow> world" where
  "setHDMode isHD w = w\<lparr>isHDMode := isHD\<rparr>"

text \<open>
  \<^verbatim>\<open>updateConfig(cameras, gridConfig)\<close>. A missing \<^verbatim>\<open>gridConfig\<close> is \<open>None\<close>; a
  missing field of it is the number 0, which \<^verbatim>\<open>|| 1\<close> replaces as it does
  \<^verbatim>\<open>undefined\<close>.
\<close>

definition orOne :: "int \<Rightarrow> int" where
  "orOne x = (if x = 0 then 1 else x)"

definition updateConfig :: "camera list \<Rightarrow> grid_config option \<Rightarrow> world \<Rightarrow> world" where
  "updateConfig cams gridConfig w =
     w\<lparr>cameraConfigs := cams,
       config := (case gridConfig of
                    None \<Rightarrow> \<lparr>columns = 1, rows = 1, numCameras = clamp 1 1 18\<rparr>
                  | Some g \<Rightarrow> \<lparr>columns = orOne (columns g), rows = orOne (rows g),
                              numCameras = clamp (orOne (numCameras g)) 1 18\<rparr>)\<rparr>"

definition updateGridLayout :: "int \<Rightarrow> world \<Rightarrow> world" where
  "updateGridLayout numCameras0 w =
     (let n = clamp numCameras0 1 18;
          layout = calculateGridLayout n;
          padding = map (\<lambda>k. \<lparr>url = [], name = ''Camera '' @ showNat (k + 1)\<rparr>)
                      [length (cameraConfigs w) ..< nat n]
      in w\<lparr>cameraConfigs := cameraConfigs w @ padding,
           config := \<lparr>columns = columns layout, rows = rows layout, numCameras = n\<rparr>\<rparr>)"

text \<open>
  \<^verbatim>\<open>setupGrid\<close>. The loop runs \<open>i\<close> from 0 while
  \<^verbatim>\<open>i < totalCells && i < numCameras\<close> and skips an index with no configuration.
\<close>

definition createSlot :: "nat \<Rightarrow> world \<Rightarrow> world" where
  "createSlot i w =
     (case lookup (cameraConfigs w) i of
        None \<Rightarrow> w
      | Some camera \<Rightarrow> createCameraElement i camera False w)"

definition slotsToInit :: "world \<Rightarrow> nat \<Rightarrow> (nat \<times> camera) list" where
  "slotsToInit w n =
     List.map_filter
       (\<lambda>i. case lookup (cameraConfigs w) i of
               None \<Rightarrow> None
             | Some camera \<Rightarrow> if url camera \<noteq> [] then Some (i, camera) else None)
       [0..<n]"

definition setupGrid :: "world \<Rightarrow> world" where
  "setupGrid w =
     (case gridElement w of
        None \<Rightarrow> w
      | Some g0 \<Rightarrow>
          let w1 = destroyAllCameras w;
              cfg = config w1;
              w2 = w1\<lparr>gridElement := map_option
                       (\<lambda>g. g\<lparr>gridTemplateColumns := columns cfg, gridTemplateRows := rows cfg\<rparr>)
                       (gridElement w1)\<rparr>;
              totalCells = columns cfg * rows cfg;
              n = nat (min totalCells (numCameras cfg));
              w3 = fold createSlot [0..<n] w2;
              camerasToInit = slotsToInit w2 n
          in if isHDMode w3 then
               (let w4 = initializeAll camerasToInit w3
                in if isPageVisible w4 then startHealthMonitor w4 else w4)
             else sequentialInit camerasToInit w3)"

text \<open>
  \<^verbatim>\<open>applySettings\<close>. With a session in the slot and no grid element,
  \<^verbatim>\<open>this.gridElement.contains\<close> throws a \<^verbatim>\<open>TypeError\<close>; the first component of
  the result tells so, the second is the state at that point.
\<close>

definition applySettings :: "nat \<Rightarrow> world \<Rightarrow> js_error option \<times> world" where
  "applySettings index w =
     (case lookup (cameraConfigs w) index of
        None \<Rightarrow> (None, w)
      | Some camera \<Rightarrow>
          let w1 = destroyCamera index w in
          (case getCamera w1 index of
             None \<Rightarrow> (None, setupGrid w1)
           | Some (c, d) \<Rightarrow>
               (case gridElement w1 of
                  None \<Rightarrow> (Some TypeError, w1)
                | Some g \<Rightarrow>
                    if element d \<in> set (children g) then
                      (let w2 = updSession c (\<lambda>x. x\<lparr>isDestroyed := False, retryCount := 0\<rparr>) w1
                       in (None, if url camera \<noteq> [] then initializeStream index camera w2 else w2))
                    else (None, setupGrid w1))))"

definition forceRecover :: "nat \<Rightarrow> world \<Rightarrow> world" where
  "forceRecover index w =
     (case lookup (cameraConfigs w) index of
        None \<Rightarrow> w
      | Some camera \<Rightarrow> recoverCamera index camera w)"

definition forceRecoverOne :: "nat \<times> nat \<Rightarrow> world \<Rightarrow> world" where
  "forceRecoverOne ic w =
     (case lookup (sessions w) (snd ic) of
        None \<Rightarrow> w
      | Some d \<Rightarrow>
          (case lookup (cameraConfigs w) (fst ic) of
             None \<Rightarrow> w
           | Some camera \<Rightarrow>
               if url camera \<noteq> [] \<and> \<not> isDestroyed d then recoverCamera (fst ic) camera w else w))"

definition forceRecoverAll :: "world \<Rightarrow> world" where
  "forceRecoverAll w = fold forceRecoverOne (cameras w) w"

subsection \<open>Engine events\<close>

record hls_error_data =
  fatal :: bool
  errorType :: hls_error_type

text \<open>
  \<^verbatim>\<open>handleHlsError\<close>. \<^verbatim>\<open>hls.startLoad()\<close> is called outside any \<^verbatim>\<open>try\<close>:
  when it throws, the exception leaves the method before \<^verbatim>\<open>retryCount++\<close>. The
  first component of the result is that exception, the second the state at that point.
\<close>

definition handleHlsError ::
  "nat \<Rightarrow> camera \<Rightarrow> hls_error_data \<Rightarrow> world \<Rightarrow> js_error option \<times> world" where
  "handleHlsError index camera edata w =
     (case getCamera w index of
        None \<Rightarrow> (None, w)
      | Some (c, d) \<Rightarrow>
          if isDestroyed d then (None, w)
          else if \<not> fatal edata then (None, w)
          else
            let giveUp = (\<lambda>message v.
                  scheduleRetry index camera (setPlaceholder index message (cleanupHls c v)))
            in (case errorType edata of
                  NETWORK_ERROR \<Rightarrow>
                    (case hls d of
                       None \<Rightarrow> (None, giveUp ''Network error'' w)
                     | Some h \<Rightarrow>
                         if retryCount d < 3 then
                           let w1 = callEngine h StartLoad w
                           in if engineThrows w h StartLoad then (Some (EngineThrew StartLoad), w1)
                              else (None, updSession c (\<lambda>x. x\<lparr>retryCount := retryCount x + 1\<rparr>) w1)
                         else (None, giveUp ''Network error'' w))
                | MEDIA_ERROR \<Rightarrow>
                    (case hls d of
                       None \<Rightarrow> (None, w)
                     | Some h \<Rightarrow>
                         let w1 = callEngine h RecoverMediaError w
                         in if engineThrows w h RecoverMediaError
                            then (None, giveUp ''Media error'' w1)
                            else (None, w1))
                | _ \<Rightarrow> (None, giveUp ''Stream error'' w)))"

text \<open>
  The five handlers of \<^verbatim>\<open>initHlsStream\<close>, for the engine \<open>h\<close> they were made
  for. \<open>live\<close> is \<^verbatim>\<open>data.details.live\<close>. A number is truthy when it is not 0.
  An exception that leaves \<^verbatim>\<open>onError\<close> goes to the engine, which called it.
\<close>

definition onMediaAttached :: "nat \<Rightarrow> world \<Rightarrow> world" where
  "onMediaAttached h w =
     (case lookup (engines w) h of
        None \<Rightarrow> w
      | Some g \<Rightarrow>
          (case lookup (sessions w) (ownerData g) of
             None \<Rightarrow> w
           | Some d \<Rightarrow>
               if isDestroyed d then w
               else play (element d) (AttachedPlay (ownerData g) (ownerIndex g)) w))"

definition onManifestParsed :: "nat \<Rightarrow> world \<Rightarrow> world" where
  "onManifestParsed h w =
     (case lookup (engines w) h of
        None \<Rightarrow> w
      | Some g \<Rightarrow>
          (case lookup (sessions w) (ownerData g) of
             None \<Rightarrow> w
           | Some d \<Rightarrow>
               if isDestroyed d then w
               else (case liveSyncPosition g of
                       None \<Rightarrow> w
                     | Some pos \<Rightarrow>
                         if pos \<noteq> 0 then updVideo (element d) (\<lambda>v. v\<lparr>currentTime := pos\<rparr>) w
                         else w)))"

definition onHlsError :: "nat \<Rightarrow> hls_error_data \<Rightarrow> world \<Rightarrow> world" where
  "onHlsError h edata w =
     (case lookup (engines w) h of
        None \<Rightarrow> w
      | Some g \<Rightarrow>
          (case lookup (sessions w) (ownerData g) of
             None \<Rightarrow> w
           | Some d \<Rightarrow>
               if isDestroyed d then w
               else snd (handleHlsError (ownerIndex g) (ownerCamera g) edata w)))"

definition onFragBuffered :: "nat \<Rightarrow> world \<Rightarrow> world" where
  "onFragBuffered h w =
     (case lookup (engines w) h of
        None \<Rightarrow> w
      | Some g \<Rightarrow>
          (case lookup (sessions w) (ownerData g) of
             None \<Rightarrow> w
           | Some d \<Rightarrow>
               if \<not> isDestroyed d \<and> retryCount d > 0 then
                 updSession (ownerData g) (\<lambda>x. x\<lparr>retryCount := 0\<rparr>) w
               else w))"

definition onLevelLoaded :: "nat \<Rightarrow> bool \<Rightarrow> world \<Rightarrow> world" where
  "onLevelLoaded h live w =
     (case lookup (engines w) h of
        None \<Rightarrow> w
      | Some g \<Rightarrow>
          (case lookup (sessions w) (ownerData g) of
             None \<Rightarrow> w
           | Some d \<Rightarrow>
               if isDestroyed d then w
               else (case liveSyncPosition g of
                       None \<Rightarrow> w
                     | Some liveEdge \<Rightarrow>
                         (case lookup (videos w) (element d) of
                            None \<Rightarrow> w
                          | Some v \<Rightarrow>
                              if live \<and> liveEdge \<noteq> 0 \<and> liveEdge - currentTime v > 5 then
                                updVideo (element d) (\<lambda>x. x\<lparr>currentTime := liveEdge\<rparr>) w
                              else w))))"

datatype hls_event =
    MediaAttached
  | ManifestParsed
  | HlsError hls_error_data
  | FragBuffered
  | LevelLoaded bool

fun eventName :: "hls_event \<Rightarrow> hls_event_name" where
  "eventName MediaAttached = MEDIA_ATTACHED"
| "eventName ManifestParsed = MANIFEST_PARSED"
| "eventName (HlsError edata) = ERROR"
| "eventName FragBuffered = FRAG_BUFFERED"
| "eventName (LevelLoaded live) = LEVEL_LOADED"

fun hlsHandler :: "nat \<Rightarrow> hls_event \<Rightarrow> world \<Rightarrow> world" where
  "hlsHandler h MediaAttached w = onMediaAttached h w"
| "hlsHandler h ManifestParsed w = onManifestParsed h w"
| "hlsHandler h (HlsError edata) w = onHlsError h edata w"
| "hlsHandler h FragBuffered w = onFragBuffered h w"
| "hlsHandler h (LevelLoaded live) w = onLevelLoaded h live w"

text \<open>An engine emits an event: the handler runs if it is still registered.\<close>

definition hlsEmit :: "nat \<Rightarrow> hls_event \<Rightarrow> world \<Rightarrow> world" where
  "hlsEmit h ev w =
     (case lookup (engines w) h of
        None \<Rightarrow> w
      | Some g \<Rightarrow> if eventName ev \<in> set (handlers g) then hlsHandler h ev w else w)"

subsection \<open>Video element events\<close>

definition onStalled :: "nat \<Rightarrow> world \<Rightarrow> world" where
  "onStalled c w =
     (case lookup (sessions w) c of
        None \<Rightarrow> w
      | Some d \<Rightarrow>
          if isDestroyed d then w
          else updSession c (\<lambda>x. x\<lparr>stallCount := stallCount x + 1\<rparr>) w)"

definition onError :: "nat \<Rightarrow> nat \<Rightarrow> world \<Rightarrow> world" where
  "onError c index w =
     (case lookup (sessions w) c of
        None \<Rightarrow> w
      | Some d \<Rightarrow>
          if isDestroyed d then w
          else (case lookup (cameraConfigs w) index of
                  None \<Rightarrow> w
                | Some cam \<Rightarrow> if url cam \<noteq> [] then scheduleRetry index cam w else w))"

definition onWaiting :: "nat \<Rightarrow> world \<Rightarrow> world" where
  "onWaiting c w = w"

definition onPlaying :: "nat \<Rightarrow> world \<Rightarrow> world" where
  "onPlaying c w =
     (case lookup (sessions w) c of
        None \<Rightarrow> w
      | Some d \<Rightarrow>
          if isDestroyed d then w
          else (case lookup (videos w) (element d) of
                  None \<Rightarrow> w
                | Some v \<Rightarrow>
                    updSession c (\<lambda>x. x\<lparr>stallCount := 0, lastPlaybackTime := currentTime v,
                                          lastCheckTime := clock w\<rparr>) w))"

fun runListener :: "listener \<Rightarrow> world \<Rightarrow> world" where
  "runListener (OnStalled c i) w = onStalled c w"
| "runListener (OnError c i) w = onError c i w"
| "runListener (OnWaiting c) w = onWaiting c w"
| "runListener (OnPlaying c) w = onPlaying c w"
| "runListener (SeqOnPlaying k) w = seqOnPlaying k w"

text \<open>
  The element \<open>e\<close> fires an event: the listeners registered for it run in the order
  of registration, each only if it is still registered when its turn comes.
\<close>

definition stillListening :: "nat \<Rightarrow> listener \<Rightarrow> world \<Rightarrow> bool" where
  "stillListening e l w = (case lookup (videos w) e of None \<Rightarrow> False | Some v \<Rightarrow> l \<in> set (listeners v))"

definition dispatchEvent :: "nat \<Rightarrow> media_event \<Rightarrow> world \<Rightarrow> world" where
  "dispatchEvent e ev w =
     (case lookup (videos w) e of
        None \<Rightarrow> w
      | Some v \<Rightarrow>
          fold (\<lambda>l u. if stillListening e l u then runListener l u else u)
            (filter (\<lambda>l. listensTo l = ev) (listeners v)) w)"

subsection \<open>Promises and timers\<close>

text \<open>The promise \<open>p\<close> of a \<^verbatim>\<open>play()\<close> is fulfilled or rejected.\<close>

definition settlePlay :: "nat \<Rightarrow> bool \<Rightarrow> world \<Rightarrow> world" where
  "settlePlay p fulfilled w =
     (case lookup (promises w) p of
        None \<Rightarrow> w
      | Some pr \<Rightarrow>
          if settled pr then w
          else
            let w1 = w\<lparr>promises := (promises w)[p := pr\<lparr>settled := True\<rparr>]\<rparr>
            in (case reaction pr of
                  LogOnly \<Rightarrow> w1
                | RetryOnReject index camera \<Rightarrow>
                    if fulfilled then w1 else scheduleRetry index camera w1
                | AttachedPlay c index \<Rightarrow>
                    if fulfilled then
                      setPlaceholder index [] (updSession c (\<lambda>x. x\<lparr>retryCount := 0\<rparr>) w1)
                    else w1))"

text \<open>\<^verbatim>\<open>!cameraData.isDestroyed\<close> for a captured session object.\<close>

definition notDestroyed :: "nat \<Rightarrow> world \<Rightarrow> bool" where
  "notDestroyed c w = (case lookup (sessions w) c of None \<Rightarrow> False | Some d \<Rightarrow> \<not> isDestroyed d)"

fun runCallback :: "callback \<Rightarrow> world \<Rightarrow> world" where
  "runCallback HealthFirstCheck w = checkAllCameraHealth w"
| "runCallback HealthTick w = checkAllCameraHealth w"
| "runCallback (RecoverReinit c index camera) w =
     (if notDestroyed c w \<and> isPageVisible w then initializeStream index camera w else w)"
| "runCallback ResumeMonitor w =
     (if isPageVisible w \<and> healthCheckInterval w = None then startHealthMonitor w else w)"
| "runCallback SeqNext w = initNextCamera w"
| "runCallback (SeqTimeout k) w = seqOnTimeout k w"
| "runCallback (RetryCooldown c index camera) w =
     (if notDestroyed c w \<and> url camera \<noteq> [] \<and> isPageVisible w
      then initializeStream index camera w else w)"
| "runCallback (RetryBackoff c index camera) w =
     (let w1 = updSession c (\<lambda>x. x\<lparr>retryTimeout := None\<rparr>) w
      in if notDestroyed c w1 \<and> url camera \<noteq> [] \<and> isPageVisible w1
         then initializeStream index camera w1 else w1)"

text \<open>
  A timer is due when its delay has passed since it was set (the delay counts in whole
  milliseconds). Firing a timeout takes it out of service; an interval is set again.
\<close>

definition due :: "timer \<Rightarrow> nat" where
  "due x = setAt x + nat \<lfloor>delay x\<rfloor>"

definition fireTimer :: "nat \<Rightarrow> world \<Rightarrow> world" where
  "fireTimer t w =
     (case lookup (timers w) t of
        None \<Rightarrow> w
      | Some x \<Rightarrow>
          if \<not> pending x then w
          else runCallback (callback x)
                 (if repeats x then updTimer t (\<lambda>y. y\<lparr>setAt := clock w\<rparr>) w
                  else updTimer t (\<lambda>y. y\<lparr>pending := False\<rparr>) w))"

subsection \<open>The event loop\<close>

text \<open>
  What can happen to the page, one event at a time: a call of a method of the manager
  by the rest of the application, a change of visibility, a timer that fires, an event
  of a video element or of an engine, a settled promise, the environment changing what
  an element or an engine reports, and time passing.
\<close>

datatype event =
    CallInit
  | CallSetHDMode bool
  | CallUpdateConfig "camera list" "grid_config option"
  | CallUpdateGridLayout int
  | CallSetupGrid
  | CallApplySettings nat
  | CallDestroyCamera nat
  | CallDestroyAllCameras
  | CallDestroy
  | CallForceRecover nat
  | CallForceRecoverAll
  | VisibilityChange bool
  | TimerFires nat
  | MediaEvent nat media_event
  | EngineEvent nat hls_event
  | PlaySettled nat bool
  | MediaState nat bool bool nat real "nat option"
  | LiveSync nat "real option"
  | TimePasses nat

fun step :: "event \<Rightarrow> world \<Rightarrow> world" where
  "step CallInit w = init w"
| "step (CallSetHDMode b) w = setHDMode b w"
| "step (CallUpdateConfig cams g) w = updateConfig cams g w"
| "step (CallUpdateGridLayout n) w = updateGridLayout n w"
| "step CallSetupGrid w = setupGrid w"
| "step (CallApplySettings i) w = snd (applySettings i w)"
| "step (CallDestroyCamera i) w = destroyCamera i w"
| "step CallDestroyAllCameras w = destroyAllCameras w"
| "step CallDestroy w = destroy w"
| "step (CallForceRecover i) w = forceRecover i w"
| "step CallForceRecoverAll w = forceRecoverAll w"
| "step (VisibilityChange hidden) w = visibilityChange hidden w"
| "step (TimerFires t) w = fireTimer t w"
| "step (MediaEvent e ev) w = dispatchEvent e ev w"
| "step (EngineEvent h ev) w = hlsEmit h ev w"
| "step (PlaySettled p ok) w = settlePlay p ok w"
| "step (MediaState e p en rs ct er) w =
     updVideo e (\<lambda>v. v\<lparr>paused := p, ended := en, readyState := rs, currentTime := ct, error := er\<rparr>) w"
| "step (LiveSync h pos) w = updEngine h (\<lambda>g. g\<lparr>liveSyncPosition := pos\<rparr>) w"
| "step (TimePasses n) w = w\<lparr>clock := clock w + n\<rparr>"

definition run :: "event list \<Rightarrow> world \<Rightarrow> world" where
  "run evs w = fold step evs w"

text \<open>
  Simulated time: a timer fires when it is due, and time does not pass beyond the
  moment a pending timer is due. Every other event may happen at any time.
\<close>

definition canFire :: "nat \<Rightarrow> world \<Rightarrow> bool" where
  "canFire t w = (case lookup (timers w) t of None \<Rightarrow> False | Some x \<Rightarrow> pending x \<and> due x \<le> clock w)"

definition mayPass :: "nat \<Rightarrow> world \<Rightarrow> bool" where
  "mayPass n w = list_all (\<lambda>x. pending x \<longrightarrow> clock w + n \<le> due x) (timers w)"

fun allowed :: "event \<Rightarrow> world \<Rightarrow> bool" where
  "allowed (TimerFires t) w = canFire t w"
| "allowed (TimePasses n) w = mayPass n w"
| "allowed ev w = True"

fun allowedRun :: "event list \<Rightarrow> world \<Rightarrow> bool" where
  "allowedRun [] w = True"
| "allowedRun (ev # evs) w = (allowed ev w \<and> allowedRun evs (step ev w))"

text \<open>
  The state after \<^verbatim>\<open>new CameraManager()\<close>, in an environment: the time, the supply of
  random numbers, the two capabilities of the browser and the calls that throw.
\<close>

definition newManager :: "nat \<Rightarrow> (nat \<Rightarrow> real) \<Rightarrow> bool \<Rightarrow> bool \<Rightarrow> (nat \<Rightarrow> hls_call \<Rightarrow> bool) \<Rightarrow> world" where
  "newManager now rnd hlsjs native throwing =
     \<lparr>cameras = [], gridElement = None,
      config = \<lparr>columns = 1, rows = 1, numCameras = 1\<rparr>,
      cameraConfigs = [], isPageVisible = True, visibilityHandler = True, isHDMode = False,
      healthCheckInterval = None, initQueue = [], isInitializing = False,
      sessions = [], videos = [], engines = [], timers = [], closures = [], promises = [],
      clock = now, randoms = rnd, randomsUsed = 0, hlsSupported = hlsjs, nativeHls = native,
      engineThrows = throwing\<rparr>"

subsection \<open>Changes that only pause\<close>

text \<open>
  Relations between the stores before and after a method that should only pause:
  engines have received nothing but \<^verbatim>\<open>stopLoad\<close> calls, video elements have at most
  been paused, timers have at most been cleared. \<open>streamHandles\<close> lists, for every
  session object, its engine reference, its element and its \<open>isDestroyed\<close> flag.
\<close>

definition onlyStopLoads :: "engine list \<Rightarrow> engine list \<Rightarrow> bool" where
  "onlyStopLoads es es' =
     (length es' = length es \<and>
      (\<forall>h < length es. \<exists>n. es' ! h = (es ! h)\<lparr>calls := calls (es ! h) @ replicate n StopLoad\<rparr>))"

definition onlyPaused :: "video list \<Rightarrow> video list \<Rightarrow> bool" where
  "onlyPaused vs vs' =
     (length vs' = length vs \<and>
      (\<forall>e < length vs. vs' ! e = vs ! e \<or> vs' ! e = (vs ! e)\<lparr>paused := True\<rparr>))"

definition onlyCleared :: "timer list \<Rightarrow> timer list \<Rightarrow> bool" where
  "onlyCleared ts ts' =
     (length ts' = length ts \<and>
      (\<forall>t < length ts. ts' ! t = ts ! t \<or> ts' ! t = (ts ! t)\<lparr>pending := False\<rparr>))"

definition streamHandles :: "world \<Rightarrow> (nat option \<times> nat \<times> bool) list" where
  "streamHandles w = map (\<lambda>d. (hls d, element d, isDestroyed d)) (sessions w)"

subsection \<open>An example page\<close>

text \<open>
  A page in kiosk mode with two cameras that have HLS URLs, HLS.js present, no call
  that throws, and \<^verbatim>\<open>Math.random()\<close> returning one half: after the constructor,
  \<^verbatim>\<open>init\<close> and \<^verbatim>\<open>updateConfig\<close> (\<open>kioskConfigured\<close>), and then after
  \<^verbatim>\<open>setupGrid\<close> (\<open>kioskStarted\<close>).
\<close>

definition camA :: camera where "camA = \<lparr>url = ''a.m3u8'', name = ''A''\<rparr>"
definition camB :: camera where "camB = \<lparr>url = ''b.m3u8'', name = ''B''\<rparr>"

definition freshPage :: world where
  "freshPage = newManager 1000 (\<lambda>n. 1 / 2) True False (\<lambda>h x. False)"

definition kioskConfigured :: world where
  "kioskConfigured =
     run [CallInit, CallUpdateConfig [camA, camB] (Some \<lparr>columns = 2, rows = 1, numCameras = 2\<rparr>)]
       freshPage"

definition kioskStarted :: world where
  "kioskStarted = step CallSetupGrid kioskConfigured"

text \<open>
  States of the example page after events of the engine of slot 0: one and three fatal
  network errors; a live edge 2 seconds and 20 seconds ahead of the playback position.
\<close>

definition fatalNetworkError :: hls_error_data where
  "fatalNetworkError = \<lparr>fatal = True, errorType = NETWORK_ERROR\<rparr>"

definition afterOneError :: world where
  "afterOneError = run [EngineEvent 0 (HlsError fatalNetworkError)] kioskStarted"

definition afterThreeErrors :: world where
  "afterThreeErrors = run (replicate 3 (EngineEvent 0 (HlsError fatalNetworkError))) kioskStarted"



text \<open>
  The example page in an environment whose \<^verbatim>\<open>Math.random()\<close> returns
  \<open>1 - 2 ^ -52\<close>, the largest double below 1.
\<close>

definition unluckyStart :: world where
  "unluckyStart = kioskStarted\<lparr>randoms := (\<lambda>n. 1 - 1 / 2 ^ 52)\<rparr>"

text \<open>
  The example page once both slots play: each engine attaches, each element fires
  \<^verbatim>\<open>playing\<close>, and the sequencer's timers fire when due.
\<close>

definition playbackStarts :: "event list" where
  "playbackStarts =
     [EngineEvent 0 MediaAttached, MediaEvent 0 Playing, TimePasses 500, TimerFires 1,
      EngineEvent 1 MediaAttached, MediaEvent 1 Playing, TimePasses 500, TimerFires 3]"

definition kioskPlaying :: world where
  "kioskPlaying = run playbackStarts kioskStarted"

text \<open>
  The playing page in trouble: slot 0 has played 7.5 seconds when the first health check
  runs, then its element stalls and its engine reports a fatal network error.
\<close>

definition troubles :: "event list" where
  "troubles =
     [MediaState 0 False False 4 (15 / 2) None, TimePasses 2000, TimerFires 4,
      MediaEvent 0 Stalled, EngineEvent 0 (HlsError fatalNetworkError)]"

definition kioskTroubled :: world where
  "kioskTroubled = run troubles kioskPlaying"

text \<open>
  A page whose configuration gives the grid one cell for two cameras, after
  \<^verbatim>\<open>setupGrid\<close>.
\<close>

definition cramped :: world where
  "cramped =
     run [CallInit, CallUpdateConfig [camA, camB] (Some \<lparr>columns = 1, rows = 1, numCameras = 2\<rparr>),
          CallSetupGrid] freshPage"

subsection \<open>Views of the state\<close>

text \<open>
  Two views collect the fields that most methods leave alone: the configuration and the
  environment (\<open>stableView\<close>), and the fields of the sequencer and the monitor
  (\<open>seqView\<close>). \<open>graves\<close> lists the session objects with the destroyed ones
  in full and the others blanked: a method that keeps \<open>graves\<close> neither changes a
  destroyed session nor changes any session's \<open>isDestroyed\<close>.
\<close>

definition stableView :: "world \<Rightarrow> _" where
  "stableView w = (cameras w, gridElement w, config w, cameraConfigs w, isPageVisible w,
     visibilityHandler w, isHDMode w, clock w, randoms w, hlsSupported w, nativeHls w, engineThrows w)"

definition seqView :: "world \<Rightarrow> _" where
  "seqView w = (healthCheckInterval w, initQueue w, isInitializing w, closures w)"

definition graves :: "world \<Rightarrow> cameraData option list" where
  "graves w = map (\<lambda>d. if isDestroyed d then Some d else None) (sessions w)"

section \<open>Basic facts\<close>

subsection \<open>Rounding to doubles\<close>

text \<open>
  A number between 0 and \<open>2 ^ 44\<close> is rounded to a multiple of \<open>2 ^ (e - 52)\<close> with
  \<open>e \<le> 43\<close>, so rounding does not cross a multiple of \<open>1 / 512\<close>, and a multiple
  of \<open>1 / 512\<close> in that range is a double. The base delays \<open>3000 * 1.5 ^ n\<close> for
  \<open>n < 10\<close> are such multiples.
\<close>

lemma bitlen_le: "n < 2 ^ k \<Longrightarrow> bitlen n \<le> k"
proof (induction k arbitrary: n)
  case 0
  then show ?case by (simp add: bitlen.simps)
next
  case (Suc k)
  have "n div 2 < 2 ^ k" using Suc.prems by simp
  from Suc.IH[OF this] show ?case by (subst bitlen.simps) simp
qed

lemma binExponent_le:
  assumes "\<bar>x\<bar> < 2 ^ 44"
  shows "binExponent x \<le> 43"
proof (cases "1 \<le> \<bar>x\<bar>")
  case True
  have "\<lfloor>\<bar>x\<bar>\<rfloor> < 2 ^ 44" using assms by (simp add: floor_less_iff)
  then have "nat \<lfloor>\<bar>x\<bar>\<rfloor> < 2 ^ 44" by (simp add: nat_less_iff)
  from bitlen_le[OF this] show ?thesis using True by (simp add: binExponent_def)
next
  case False
  then show ?thesis by (simp add: binExponent_def)
qed

lemma pow2_pos: "0 < pow2 e"
  by (simp add: pow2_def)

lemma pow2_grid:
  assumes "e \<le> - 9"
  shows "1 / 512 = of_int (2 ^ nat (- 9 - e)) * pow2 e"
proof -
  have "nat (- e) = 9 + nat (- 9 - e)" using assms by simp
  then have "(2::real) ^ nat (- e) = 512 * 2 ^ nat (- 9 - e)" by (simp add: power_add)
  then show ?thesis using assms by (simp add: pow2_def)
qed

lemma roundHalfEven_bounds: "\<lfloor>x\<rfloor> \<le> roundHalfEven x" "roundHalfEven x \<le> \<lceil>x\<rceil>"
proof -
  show "\<lfloor>x\<rfloor> \<le> roundHalfEven x" by (simp add: roundHalfEven_def Let_def)
  have "\<lfloor>x\<rfloor> + 1 \<le> \<lceil>x\<rceil>" if "0 < x - of_int \<lfloor>x\<rfloor>"
    using that by linarith
  moreover have "\<lfloor>x\<rfloor> \<le> \<lceil>x\<rceil>" by linarith
  ultimately show "roundHalfEven x \<le> \<lceil>x\<rceil>"
    by (auto simp: roundHalfEven_def Let_def)
qed

lemma toDouble_between:
  assumes x: "0 < x" "x < 2 ^ 44"
  shows "of_int k / 512 \<le> x \<Longrightarrow> of_int k / 512 \<le> toDouble x"
    and "x \<le> of_int k / 512 \<Longrightarrow> toDouble x \<le> of_int k / 512"
proof -
  define q where "q = pow2 (binExponent x - 52)"
  define m where "m = (2::int) ^ nat (- 9 - (binExponent x - 52))"
  have e: "binExponent x - 52 \<le> - 9" using binExponent_le[of x] x by simp
  have q: "0 < q" by (simp add: q_def pow2_pos)
  have g: "1 / 512 = of_int m * q" unfolding m_def q_def by (rule pow2_grid[OF e])
  have d: "of_int k / 512 = of_int (k * m) * q" using g by simp
  have t: "toDouble x = of_int (roundHalfEven (x / q)) * q"
    using x by (simp add: toDouble_def q_def Let_def)
  {
    assume "of_int k / 512 \<le> x"
    then have "of_int (k * m) \<le> x / q" using q by (simp add: d pos_le_divide_eq)
    then have "k * m \<le> \<lfloor>x / q\<rfloor>" by (simp add: le_floor_iff)
    then have "k * m \<le> roundHalfEven (x / q)" using roundHalfEven_bounds(1)[of "x / q"] by linarith
    then have "(of_int (k * m) :: real) \<le> of_int (roundHalfEven (x / q))" by (simp only: of_int_le_iff)
    then show "of_int k / 512 \<le> toDouble x"
      unfolding d t using q by (simp only: mult_le_cancel_right_pos)
  }
  {
    assume "x \<le> of_int k / 512"
    then have "x / q \<le> of_int (k * m)" using q by (simp add: d pos_divide_le_eq)
    then have "\<lceil>x / q\<rceil> \<le> k * m" by (simp add: ceiling_le_iff)
    then have "roundHalfEven (x / q) \<le> k * m" using roundHalfEven_bounds(2)[of "x / q"] by linarith
    then have "(of_int (roundHalfEven (x / q)) :: real) \<le> of_int (k * m)" by (simp only: of_int_le_iff)
    then show "toDouble x \<le> of_int k / 512"
      unfolding d t using q by (simp only: mult_le_cancel_right_pos)
  }
qed

lemma toDouble_exact:
  assumes "0 \<le> x" "x < 2 ^ 44" "x = of_int k / 512"
  shows "toDouble x = x"
proof (cases "x = 0")
  case True
  then show ?thesis by (simp add: toDouble_def)
next
  case False
  then have p: "0 < x" using assms(1) by simp
  have "x \<le> toDouble x" "toDouble x \<le> x"
    using toDouble_between[OF p assms(2), of k] by (simp_all only: assms(3)[symmetric] order_refl)
  then show ?thesis by simp
qed

lemma backoff_grid:
  assumes "n < 10"
  shows "(3 / 2 :: real) ^ n = of_int (3 ^ n * 2 ^ (9 - n)) / 512"
    and "(3 / 2 :: real) ^ n \<le> 39" and "1 \<le> (3 / 2 :: real) ^ n"
proof -
  have "(512::real) = 2 ^ (n + (9 - n))" using assms by simp
  also have "\<dots> = 2 ^ n * 2 ^ (9 - n)" by (rule power_add)
  finally have s: "(512::real) = 2 ^ n * 2 ^ (9 - n)" .
  show "(3 / 2 :: real) ^ n = of_int (3 ^ n * 2 ^ (9 - n)) / 512"
    unfolding s by (simp add: power_divide)
  have "(3 / 2 :: real) ^ n \<le> (3 / 2) ^ 9" using assms by (intro power_increasing) simp_all
  also have "\<dots> \<le> 39" by (simp add: power_divide)
  finally show "(3 / 2 :: real) ^ n \<le> 39" .
  show "1 \<le> (3 / 2 :: real) ^ n" by (rule one_le_power) simp
qed

lemma backoff_delay:
  assumes n: "n < 10" and r: "0 \<le> r" "r < 1"
  defines "b \<equiv> 3000 * (3 / 2 :: real) ^ n"
  shows "toDouble (3000 * toDouble ((3 / 2) ^ n)) = b"
    and "b \<le> toDouble (b + toDouble (r * 1000))"
    and "toDouble (b + toDouble (r * 1000)) \<le> b + 1000"
    and "b + 1000 \<le> 120000"
proof -
  note gr = backoff_grid[OF n]
  have p: "toDouble ((3 / 2) ^ n) = (3 / 2) ^ n"
  proof (rule toDouble_exact)
    show "(0::real) \<le> (3 / 2) ^ n" "(3 / 2 :: real) ^ n < 2 ^ 44" using gr(2,3) by simp_all
    show "(3 / 2 :: real) ^ n = of_int (3 ^ n * 2 ^ (9 - n)) / 512" by (rule gr(1))
  qed
  have bk: "b = of_int (3000 * (3 ^ n * 2 ^ (9 - n))) / 512"
    unfolding b_def by (subst gr(1)) simp
  have b1k: "b + 1000 = of_int (3000 * (3 ^ n * 2 ^ (9 - n)) + 512000) / 512"
    unfolding bk by simp
  have bb: "3000 \<le> b" "b \<le> 117000" using gr(2,3) by (simp_all add: b_def)
  have "toDouble b = b"
  proof (rule toDouble_exact)
    show "0 \<le> b" "b < 2 ^ 44" using bb by simp_all
    show "b = of_int (3000 * (3 ^ n * 2 ^ (9 - n))) / 512" by (rule bk)
  qed
  then show "toDouble (3000 * toDouble ((3 / 2) ^ n)) = b"
    unfolding p b_def .
  have j: "0 \<le> toDouble (r * 1000) \<and> toDouble (r * 1000) \<le> 1000"
  proof (cases "r = 0")
    case True
    then show ?thesis by (simp add: toDouble_def)
  next
    case False
    then have x: "0 < r * 1000" "r * 1000 < 2 ^ 44" using r by simp_all
    from toDouble_between(1)[OF x, of 0] toDouble_between(2)[OF x, of 512000] r
    show ?thesis by simp
  qed
  have x: "0 < b + toDouble (r * 1000)" "b + toDouble (r * 1000) < 2 ^ 44"
    using bb j by simp_all
  have "b \<le> b + toDouble (r * 1000)" "b + toDouble (r * 1000) \<le> b + 1000"
    using j by simp_all
  then show "b \<le> toDouble (b + toDouble (r * 1000))"
    and "toDouble (b + toDouble (r * 1000)) \<le> b + 1000"
    using toDouble_between(1)[OF x, of "3000 * (3 ^ n * 2 ^ (9 - n))"]
      toDouble_between(2)[OF x, of "3000 * (3 ^ n * 2 ^ (9 - n)) + 512000"]
    by (simp_all only: bk[symmetric] b1k[symmetric])
  show "b + 1000 \<le> 120000" using bb by simp
qed

subsection \<open>Stores\<close>

lemma lookup_Some_iff: "lookup xs i = Some x \<longleftrightarrow> i < length xs \<and> xs ! i = x"
  by (auto simp: lookup_def)

lemma lookup_None_iff: "lookup xs i = None \<longleftrightarrow> length xs \<le> i"
  by (auto simp: lookup_def)

lemma lookup_update [simp]:
  "lookup (xs[i := x]) j = (if j = i \<and> i < length xs then Some x else lookup xs j)"
  by (auto simp: lookup_def)

lemma lookup_append [simp]:
  "lookup (xs @ ys) j = (if j < length xs then lookup xs j else lookup ys (j - length xs))"
  by (auto simp: lookup_def nth_append)

lemma lookup_single [simp]: "lookup [x] j = (if j = 0 then Some x else None)"
  by (auto simp: lookup_def)

lemma lookup_nthD: "lookup xs i = Some x \<Longrightarrow> xs ! i = x \<and> i < length xs"
  by (simp add: lookup_Some_iff)

lemma getCamera_SomeD:
  "getCamera w index = Some (c, d) \<Longrightarrow>
     map_of (cameras w) index = Some c \<and> c < length (sessions w) \<and> sessions w ! c = d"
  by (auto simp: getCamera_def lookup_def split: option.splits if_splits)

lemma getCamera_cong:
  "cameras w' = cameras w \<Longrightarrow> sessions w' = sessions w \<Longrightarrow> getCamera w' i = getCamera w i"
  by (simp add: getCamera_def split: option.splits)

lemmas prim = updSession_def updVideo_def updEngine_def updTimer_def updClosure_def
  setTimeout_def setInterval_def clearTimeout_def nextTimer_def play_def callEngine_def
  hlsOff_def nextRandom_def mathRandom_def appendChild_def

subsection \<open>The example page, evaluated\<close>

lemma kioskConfigured_eq:
  "kioskConfigured =
     \<lparr>cameras = [], gridElement = Some \<lparr>children = [], gridTemplateColumns = 0, gridTemplateRows = 0\<rparr>,
      config = \<lparr>columns = 2, rows = 1, numCameras = 2\<rparr>,
      cameraConfigs = [camA, camB], isPageVisible = True, visibilityHandler = True, isHDMode = False,
      healthCheckInterval = None, initQueue = [], isInitializing = False,
      sessions = [], videos = [], engines = [], timers = [], closures = [], promises = [],
      clock = 1000, randoms = (\<lambda>n. 1 / 2), randomsUsed = 0, hlsSupported = True, nativeHls = False,
      engineThrows = (\<lambda>h x. False)\<rparr>"
  by (simp add: kioskConfigured_def run_def freshPage_def newManager_def init_def updateConfig_def
        orOne_def clamp_def)

lemmas stream_defs = initializeStream_def initHlsStream_def cleanupHls_def releaseEngine_def
  scheduleRetry_def setPlaceholder_def cameraLabel_def addCacheBuster_def allHlsEvents_def
  startsWith_def endsWith_def getCamera_def lookup_def

lemma kioskStarted_eq:
  "kioskStarted =
     \<lparr>cameras = [(0, 0), (1, 1)],
   gridElement = Some \<lparr>children = [0, 1], gridTemplateColumns = 2, gridTemplateRows = 1\<rparr>,
   config = \<lparr>columns = 2, rows = 1, numCameras = 2\<rparr>,
   cameraConfigs = [camA, camB],
   isPageVisible = True,
   visibilityHandler = True,
   isHDMode = False,
   healthCheckInterval = None,
   initQueue = [(1, camB)],
   isInitializing = True,
   sessions = [\<lparr>hls = Some 0, element = 0, retryTimeout = None, retryCount = 0, isDestroyed = False, eventCleanups = [(0, MEDIA_ATTACHED), (0, MANIFEST_PARSED), (0, ERROR), (0, FRAG_BUFFERED), (0, LEVEL_LOADED)], lastPlaybackTime = 0, lastCheckTime = 0, stallCount = 0, videoEventCleanups = [OnStalled 0 0, OnError 0 0, OnWaiting 0, OnPlaying 0], initTimeout = Some 0\<rparr>, \<lparr>hls = None, element = 1, retryTimeout = None, retryCount = 0, isDestroyed = False, eventCleanups = [], lastPlaybackTime = 0, lastCheckTime = 0, stallCount = 0, videoEventCleanups = [OnStalled 1 1, OnError 1 1, OnWaiting 1, OnPlaying 1], initTimeout = None\<rparr>],
   videos = [\<lparr>src = None, attributes = [(''preload'', ''none''), (''playsinline'', []), (''muted'', []), (''autoplay'', []), (''data-placeholder'', ''A\<newline>Loading...''), (''data-camera-index'', ''0''), (''class'', ''camera-feed'')], paused = True, ended = False, readyState = 0, currentTime = 0, error = None, listeners = [OnStalled 0 0, OnError 0 0, OnWaiting 0, OnPlaying 0, SeqOnPlaying 0]\<rparr>, \<lparr>src = None, attributes = [(''preload'', ''none''), (''playsinline'', []), (''muted'', []), (''autoplay'', []), (''data-placeholder'', ''B\<newline>Loading...''), (''data-camera-index'', ''1''), (''class'', ''camera-feed'')], paused = True, ended = False, readyState = 0, currentTime = 0, error = None, listeners = [OnStalled 1 1, OnError 1 1, OnWaiting 1, OnPlaying 1]\<rparr>],
   engines = [\<lparr>calls = [LoadSource ''a.m3u8?_cb=1000'', AttachMedia 0], handlers = [MEDIA_ATTACHED, MANIFEST_PARSED, ERROR, FRAG_BUFFERED, LEVEL_LOADED], ownerData = 0, ownerIndex = 0, ownerCamera = camA, liveSyncPosition = None\<rparr>],
   timers = [\<lparr>callback = SeqTimeout 0, delay = 15000, setAt = 1000, repeats = False, pending = True\<rparr>],
   closures = [\<lparr>seqIndex = 0, seqElement = 0, resolved = False, timeoutId = 0\<rparr>],
   promises = [],
   clock = 1000,
   randoms = (\<lambda>n. 1 / 2),
   randomsUsed = 0,
   hlsSupported = True,
   nativeHls = False,
   engineThrows = (\<lambda>h x. False)\<rparr>"
  apply (simp add: kioskStarted_def kioskConfigured_eq setupGrid_def destroyAllCameras_def Let_def)
  apply (simp add: createSlot_def createCameraElement_def lookup_def Let_def mapSet_def camA_def camB_def prim
     streamAttributes_def setAttribute_def upt_rec slotsToInit_def List.map_filter_def)
  apply (simp add: sequentialInit_def initNextCamera_def Let_def prim getCamera_def lookup_def addEventListener_def
       SEQUENTIAL_TIMEOUT_MS_def)
  apply (simp add: stream_defs Let_def prim showNat.simps)
  done

lemmas engine_event_defs = hlsEmit_def onHlsError_def handleHlsError_def onManifestParsed_def
  onLevelLoaded_def onMediaAttached_def onFragBuffered_def

lemma afterErrors_facts:
  "cameras afterOneError = [(0, 0), (1, 1)]"
  "cameras afterThreeErrors = [(0, 0), (1, 1)]"
  "length (sessions afterOneError) = 2"
  "length (sessions afterThreeErrors) = 2"
  "\<not> isDestroyed (sessions afterOneError ! 0)"
  "hls (sessions afterOneError ! 0) = Some 0"
  "retryCount (sessions afterOneError ! 0) = 1"
  "\<not> isDestroyed (sessions afterThreeErrors ! 0)"
  "hls (sessions afterThreeErrors ! 0) = Some 0"
  "retryCount (sessions afterThreeErrors ! 0) = 3"
  "length (engines afterOneError) = 1"
  "length (engines afterThreeErrors) = 1"
  "nextTimer afterThreeErrors = 1"
  by (simp_all add: afterOneError_def afterThreeErrors_def run_def kioskStarted_eq fatalNetworkError_def engine_event_defs
        allHlsEvents_def lookup_def getCamera_def prim Let_def numeral_3_eq_3)


lemmas event_defs = hlsEmit_def onHlsError_def handleHlsError_def onManifestParsed_def
  onLevelLoaded_def onMediaAttached_def onFragBuffered_def dispatchEvent_def stillListening_def
  onStalled_def onError_def onWaiting_def onPlaying_def seqOnPlaying_def seqOnTimeout_def
  fireTimer_def notDestroyed_def settlePlay_def initNextCamera_def removeEventListener_def
  addEventListener_def startHealthMonitor_def stopHealthMonitor_def
  SEQUENTIAL_TIMEOUT_MS_def HEALTH_CHECK_INTERVAL_MS_def

lemma kioskPlaying_eq:
  "kioskPlaying =
     \<lparr>cameras = [(0, 0), (1, 1)],
   gridElement = Some \<lparr>children = [0, 1], gridTemplateColumns = 2, gridTemplateRows = 1\<rparr>,
   config = \<lparr>columns = 2, rows = 1, numCameras = 2\<rparr>,
   cameraConfigs = [camA, camB],
   isPageVisible = True,
   visibilityHandler = True,
   isHDMode = False,
   healthCheckInterval = Some 5,
   initQueue = [],
   isInitializing = False,
   sessions = [\<lparr>hls = Some 0, element = 0, retryTimeout = None, retryCount = 0, isDestroyed = False, eventCleanups = [(0, MEDIA_ATTACHED), (0, MANIFEST_PARSED), (0, ERROR), (0, FRAG_BUFFERED), (0, LEVEL_LOADED)], lastPlaybackTime = 0, lastCheckTime = 1000, stallCount = 0, videoEventCleanups = [OnStalled 0 0, OnError 0 0, OnWaiting 0, OnPlaying 0], initTimeout = Some 0\<rparr>, \<lparr>hls = Some 1, element = 1, retryTimeout = None, retryCount = 0, isDestroyed = False, eventCleanups = [(1, MEDIA_ATTACHED), (1, MANIFEST_PARSED), (1, ERROR), (1, FRAG_BUFFERED), (1, LEVEL_LOADED)], lastPlaybackTime = 0, lastCheckTime = 1500, stallCount = 0, videoEventCleanups = [OnStalled 1 1, OnError 1 1, OnWaiting 1, OnPlaying 1], initTimeout = Some 2\<rparr>],
   videos = [\<lparr>src = None, attributes = [(''preload'', ''none''), (''playsinline'', []), (''muted'', []), (''autoplay'', []), (''data-placeholder'', ''A\<newline>Loading...''), (''data-camera-index'', ''0''), (''class'', ''camera-feed'')], paused = False, ended = False, readyState = 0, currentTime = 0, error = None, listeners = [OnStalled 0 0, OnError 0 0, OnWaiting 0, OnPlaying 0]\<rparr>, \<lparr>src = None, attributes = [(''preload'', ''none''), (''playsinline'', []), (''muted'', []), (''autoplay'', []), (''data-placeholder'', ''B\<newline>Loading...''), (''data-camera-index'', ''1''), (''class'', ''camera-feed'')], paused = False, ended = False, readyState = 0, currentTime = 0, error = None, listeners = [OnStalled 1 1, OnError 1 1, OnWaiting 1, OnPlaying 1]\<rparr>],
   engines = [\<lparr>calls = [LoadSource ''a.m3u8?_cb=1000'', AttachMedia 0], handlers = [MEDIA_ATTACHED, MANIFEST_PARSED, ERROR, FRAG_BUFFERED, LEVEL_LOADED], ownerData = 0, ownerIndex = 0, ownerCamera = camA, liveSyncPosition = None\<rparr>, \<lparr>calls = [LoadSource ''b.m3u8?_cb=1500'', AttachMedia 1], handlers = [MEDIA_ATTACHED, MANIFEST_PARSED, ERROR, FRAG_BUFFERED, LEVEL_LOADED], ownerData = 1, ownerIndex = 1, ownerCamera = camB, liveSyncPosition = None\<rparr>],
   timers = [\<lparr>callback = SeqTimeout 0, delay = 15000, setAt = 1000, repeats = False, pending = False\<rparr>, \<lparr>callback = SeqNext, delay = 500, setAt = 1000, repeats = False, pending = False\<rparr>, \<lparr>callback = SeqTimeout 1, delay = 15000, setAt = 1500, repeats = False, pending = False\<rparr>, \<lparr>callback = SeqNext, delay = 500, setAt = 1500, repeats = False, pending = False\<rparr>, \<lparr>callback = HealthFirstCheck, delay = 2000, setAt = 2000, repeats = False, pending = True\<rparr>, \<lparr>callback = HealthTick, delay = 5000, setAt = 2000, repeats = True, pending = True\<rparr>],
   closures = [\<lparr>seqIndex = 0, seqElement = 0, resolved = True, timeoutId = 0\<rparr>, \<lparr>seqIndex = 1, seqElement = 1, resolved = True, timeoutId = 2\<rparr>],
   promises = [\<lparr>reaction = AttachedPlay 0 0, settled = False\<rparr>, \<lparr>reaction = AttachedPlay 1 1, settled = False\<rparr>],
   clock = 2000,
   randoms = (\<lambda>n. 1 / 2),
   randomsUsed = 0,
   hlsSupported = True,
   nativeHls = False,
   engineThrows = (\<lambda>h x. False)\<rparr>"
  by (simp add: kioskPlaying_def playbackStarts_def run_def kioskStarted_eq event_defs stream_defs
        prim Let_def camA_def camB_def showNat.simps)

lemma kioskPlaying_facts:
  "visibilityHandler kioskPlaying" "cameras kioskPlaying = [(0, 0), (1, 1)]"
  "healthCheckInterval kioskPlaying = Some 5"
  "length (sessions kioskPlaying) = 2" "length (videos kioskPlaying) = 2"
  "length (engines kioskPlaying) = 2" "length (timers kioskPlaying) = 6"
  "\<not> isDestroyed (sessions kioskPlaying ! 0)" "\<not> isDestroyed (sessions kioskPlaying ! 1)"
  "element (sessions kioskPlaying ! 0) = 0" "element (sessions kioskPlaying ! 1) = 1"
  "hls (sessions kioskPlaying ! 0) = Some 0" "hls (sessions kioskPlaying ! 1) = Some 1"
  "\<not> paused (videos kioskPlaying ! 0)" "\<not> paused (videos kioskPlaying ! 1)"
  "calls (engines kioskPlaying ! 0) = [LoadSource ''a.m3u8?_cb=1000'', AttachMedia 0]"
  "calls (engines kioskPlaying ! 1) = [LoadSource ''b.m3u8?_cb=1500'', AttachMedia 1]"
  "pending (timers kioskPlaying ! 5)" "callback (timers kioskPlaying ! 5) = HealthTick"
  by (simp_all add: kioskPlaying_eq)


lemma kioskTroubled_eq:
  "kioskTroubled =
     \<lparr>cameras = [(0, 0), (1, 1)],
   gridElement = Some \<lparr>children = [0, 1], gridTemplateColumns = 2, gridTemplateRows = 1\<rparr>,
   config = \<lparr>columns = 2, rows = 1, numCameras = 2\<rparr>,
   cameraConfigs = [camA, camB],
   isPageVisible = True,
   visibilityHandler = True,
   isHDMode = False,
   healthCheckInterval = Some 5,
   initQueue = [],
   isInitializing = False,
   sessions = [\<lparr>hls = Some 0, element = 0, retryTimeout = None, retryCount = 1, isDestroyed = False, eventCleanups = [(0, MEDIA_ATTACHED), (0, MANIFEST_PARSED), (0, ERROR), (0, FRAG_BUFFERED), (0, LEVEL_LOADED)], lastPlaybackTime = 15 / 2, lastCheckTime = 4000, stallCount = 1, videoEventCleanups = [OnStalled 0 0, OnError 0 0, OnWaiting 0, OnPlaying 0], initTimeout = Some 0\<rparr>, \<lparr>hls = Some 1, element = 1, retryTimeout = None, retryCount = 0, isDestroyed = False, eventCleanups = [(1, MEDIA_ATTACHED), (1, MANIFEST_PARSED), (1, ERROR), (1, FRAG_BUFFERED), (1, LEVEL_LOADED)], lastPlaybackTime = 0, lastCheckTime = 4000, stallCount = 0, videoEventCleanups = [OnStalled 1 1, OnError 1 1, OnWaiting 1, OnPlaying 1], initTimeout = Some 2\<rparr>],
   videos = [\<lparr>src = None, attributes = [(''preload'', ''none''), (''playsinline'', []), (''muted'', []), (''autoplay'', []), (''data-placeholder'', ''A\<newline>Loading...''), (''data-camera-index'', ''0''), (''class'', ''camera-feed'')], paused = False, ended = False, readyState = 4, currentTime = 15 / 2, error = None, listeners = [OnStalled 0 0, OnError 0 0, OnWaiting 0, OnPlaying 0]\<rparr>, \<lparr>src = None, attributes = [(''preload'', ''none''), (''playsinline'', []), (''muted'', []), (''autoplay'', []), (''data-placeholder'', ''B\<newline>Loading...''), (''data-camera-index'', ''1''), (''class'', ''camera-feed'')], paused = False, ended = False, readyState = 0, currentTime = 0, error = None, listeners = [OnStalled 1 1, OnError 1 1, OnWaiting 1, OnPlaying 1]\<rparr>],
   engines = [\<lparr>calls = [LoadSource ''a.m3u8?_cb=1000'', AttachMedia 0, StartLoad], handlers = [MEDIA_ATTACHED, MANIFEST_PARSED, ERROR, FRAG_BUFFERED, LEVEL_LOADED], ownerData = 0, ownerIndex = 0, ownerCamera = camA, liveSyncPosition = None\<rparr>, \<lparr>calls = [LoadSource ''b.m3u8?_cb=1500'', AttachMedia 1], handlers = [MEDIA_ATTACHED, MANIFEST_PARSED, ERROR, FRAG_BUFFERED, LEVEL_LOADED], ownerData = 1, ownerIndex = 1, ownerCamera = camB, liveSyncPosition = None\<rparr>],
   timers = [\<lparr>callback = SeqTimeout 0, delay = 15000, setAt = 1000, repeats = False, pending = False\<rparr>, \<lparr>callback = SeqNext, delay = 500, setAt = 1000, repeats = False, pending = False\<rparr>, \<lparr>callback = SeqTimeout 1, delay = 15000, setAt = 1500, repeats = False, pending = False\<rparr>, \<lparr>callback = SeqNext, delay = 500, setAt = 1500, repeats = False, pending = False\<rparr>, \<lparr>callback = HealthFirstCheck, delay = 2000, setAt = 2000, repeats = False, pending = False\<rparr>, \<lparr>callback = HealthTick, delay = 5000, setAt = 2000, repeats = True, pending = True\<rparr>],
   closures = [\<lparr>seqIndex = 0, seqElement = 0, resolved = True, timeoutId = 0\<rparr>, \<lparr>seqIndex = 1, seqElement = 1, resolved = True, timeoutId = 2\<rparr>],
   promises = [\<lparr>reaction = AttachedPlay 0 0, settled = False\<rparr>, \<lparr>reaction = AttachedPlay 1 1, settled = False\<rparr>],
   clock = 4000,
   randoms = (\<lambda>n. 1 / 2),
   randomsUsed = 0,
   hlsSupported = True,
   nativeHls = False,
   engineThrows = (\<lambda>h x. False)\<rparr>"
  apply (simp add: kioskTroubled_def troubles_def run_def kioskPlaying_eq prim)
  apply (simp add: fireTimer_def lookup_def prim checkAllCameraHealth_def checkCameraHealth_def Let_def
      camA_def camB_def endsWith_def HEALTH_CHECK_INTERVAL_MS_def MAX_STALL_COUNT_def)
  apply (simp add: event_defs fatalNetworkError_def lookup_def getCamera_def prim Let_def allHlsEvents_def)
  done

lemmas double_defs = toDouble_def binExponent_def pow2_def roundHalfEven_def bitlen.simps

lemma toDouble_examples:
  "toDouble 500 = 500" "toDouble 3500 = 3500" "toDouble 10625 = 10625"
  by (simp_all add: double_defs Let_def)

subsection \<open>Fields a method leaves alone\<close>

lemma stableViewD:
  "stableView a = stableView b \<Longrightarrow>
     cameras a = cameras b \<and> gridElement a = gridElement b \<and> config a = config b \<and>
     cameraConfigs a = cameraConfigs b \<and> isPageVisible a = isPageVisible b \<and>
     visibilityHandler a = visibilityHandler b \<and> isHDMode a = isHDMode b \<and> clock a = clock b \<and>
     randoms a = randoms b \<and> hlsSupported a = hlsSupported b \<and> nativeHls a = nativeHls b \<and>
     engineThrows a = engineThrows b"
  by (simp add: stableView_def)

lemma seqViewD:
  "seqView a = seqView b \<Longrightarrow>
     healthCheckInterval a = healthCheckInterval b \<and> initQueue a = initQueue b \<and>
     isInitializing a = isInitializing b \<and> closures a = closures b"
  by (simp add: seqView_def)

lemmas view_defs = stableView_def seqView_def

lemma fold_keeps: "(\<And>x u. V (f x u) = V u) \<Longrightarrow> V (fold f xs w) = V w"
  by (induction xs arbitrary: w) simp_all

lemma stableView_updates [simp]:
  "stableView (w\<lparr>sessions := a\<rparr>) = stableView w"
  "stableView (w\<lparr>videos := b\<rparr>) = stableView w"
  "stableView (w\<lparr>engines := c\<rparr>) = stableView w"
  "stableView (w\<lparr>timers := d\<rparr>) = stableView w"
  "stableView (w\<lparr>promises := e\<rparr>) = stableView w"
  "stableView (w\<lparr>randomsUsed := f\<rparr>) = stableView w"
  "stableView (w\<lparr>closures := g\<rparr>) = stableView w"
  "stableView (w\<lparr>healthCheckInterval := h\<rparr>) = stableView w"
  "stableView (w\<lparr>initQueue := i\<rparr>) = stableView w"
  "stableView (w\<lparr>isInitializing := j\<rparr>) = stableView w"
  by (simp_all add: stableView_def)

lemma seqView_updates [simp]:
  "seqView (w\<lparr>sessions := a\<rparr>) = seqView w"
  "seqView (w\<lparr>videos := b\<rparr>) = seqView w"
  "seqView (w\<lparr>engines := c\<rparr>) = seqView w"
  "seqView (w\<lparr>timers := d\<rparr>) = seqView w"
  "seqView (w\<lparr>promises := e\<rparr>) = seqView w"
  "seqView (w\<lparr>randomsUsed := f\<rparr>) = seqView w"
  by (simp_all add: seqView_def)

lemma prim_views [simp]:
  "stableView (updSession c f w) = stableView w" "seqView (updSession c f w) = seqView w"
  "stableView (updVideo e fv w) = stableView w" "seqView (updVideo e fv w) = seqView w"
  "stableView (updEngine h fe w) = stableView w" "seqView (updEngine h fe w) = seqView w"
  "stableView (updTimer t ft w) = stableView w" "seqView (updTimer t ft w) = seqView w"
  "stableView (updClosure k fk w) = stableView w"
  "stableView (setTimeout cb dl w) = stableView w" "seqView (setTimeout cb dl w) = seqView w"
  "stableView (setInterval cb dl w) = stableView w" "seqView (setInterval cb dl w) = seqView w"
  "stableView (clearTimeout t w) = stableView w" "seqView (clearTimeout t w) = seqView w"
  "stableView (play e r w) = stableView w" "seqView (play e r w) = seqView w"
  "stableView (callEngine h x w) = stableView w" "seqView (callEngine h x w) = seqView w"
  "stableView (hlsOff hn w) = stableView w" "seqView (hlsOff hn w) = seqView w"
  "stableView (nextRandom w) = stableView w" "seqView (nextRandom w) = seqView w"
  by (simp_all add: prim)

lemmas prim_fields [simp] =
  prim_views(1)[THEN stableViewD] prim_views(2)[THEN seqViewD]
  prim_views(3)[THEN stableViewD] prim_views(4)[THEN seqViewD]
  prim_views(5)[THEN stableViewD] prim_views(6)[THEN seqViewD]
  prim_views(7)[THEN stableViewD] prim_views(8)[THEN seqViewD]
  prim_views(9)[THEN stableViewD]
  prim_views(10)[THEN stableViewD] prim_views(11)[THEN seqViewD]
  prim_views(12)[THEN stableViewD] prim_views(13)[THEN seqViewD]
  prim_views(14)[THEN stableViewD] prim_views(15)[THEN seqViewD]
  prim_views(16)[THEN stableViewD] prim_views(17)[THEN seqViewD]
  prim_views(18)[THEN stableViewD] prim_views(19)[THEN seqViewD]
  prim_views(20)[THEN stableViewD] prim_views(21)[THEN seqViewD]
  prim_views(22)[THEN stableViewD] prim_views(23)[THEN seqViewD]

lemma stopHealthMonitor_view [simp]: "stableView (stopHealthMonitor w) = stableView w"
  by (simp add: stopHealthMonitor_def split: option.splits)

lemmas stopHealthMonitor_fields [simp] = stopHealthMonitor_view[THEN stableViewD]

lemma startHealthMonitor_view [simp]: "stableView (startHealthMonitor w) = stableView w"
  by (simp add: startHealthMonitor_def Let_def)

lemmas startHealthMonitor_fields [simp] = startHealthMonitor_view[THEN stableViewD]

lemma fold_hlsOff_view [simp]:
  "stableView (fold hlsOff xs w) = stableView w" "seqView (fold hlsOff xs w) = seqView w"
  by (simp_all add: fold_keeps)

lemmas fold_hlsOff_fields [simp] = fold_hlsOff_view(1)[THEN stableViewD] fold_hlsOff_view(2)[THEN seqViewD]

lemma fold_hlsOff_other [simp]:
  "sessions (fold hlsOff xs w) = sessions w"
  "timers (fold hlsOff xs w) = timers w" "videos (fold hlsOff xs w) = videos w"
  "promises (fold hlsOff xs w) = promises w" "randomsUsed (fold hlsOff xs w) = randomsUsed w"
  "length (engines (fold hlsOff xs w)) = length (engines w)"
  by (induction xs arbitrary: w; simp add: prim)+

lemma releaseEngine_view [simp]:
  "stableView (releaseEngine h w) = stableView w" "seqView (releaseEngine h w) = seqView w"
  by (simp_all add: releaseEngine_def Let_def)

lemmas releaseEngine_fields [simp] = releaseEngine_view(1)[THEN stableViewD] releaseEngine_view(2)[THEN seqViewD]

lemma releaseEngine_other [simp]:
  "timers (releaseEngine h w) = timers w" "videos (releaseEngine h w) = videos w"
  "promises (releaseEngine h w) = promises w" "randomsUsed (releaseEngine h w) = randomsUsed w"
  "sessions (releaseEngine h w) = sessions w"
  "length (engines (releaseEngine h w)) = length (engines w)"
  by (simp_all add: releaseEngine_def Let_def prim)

lemma cleanupHls_sessions:
  "sessions (cleanupHls c w) = (sessions w)[c := (sessions w ! c)\<lparr>eventCleanups := [], hls := None\<rparr>]"
  apply (simp add: cleanupHls_def Let_def lookup_def updSession_def split: option.splits)
  apply (auto simp: list_eq_iff_nth_eq nth_list_update)
  done

lemma cleanupHls_view [simp]:
  "stableView (cleanupHls c w) = stableView w" "seqView (cleanupHls c w) = seqView w"
  by (simp_all add: cleanupHls_def Let_def split: option.splits)

lemmas cleanupHls_fields [simp] = cleanupHls_view(1)[THEN stableViewD] cleanupHls_view(2)[THEN seqViewD]

lemma cleanupHls_other [simp]:
  "timers (cleanupHls c w) = timers w" "videos (cleanupHls c w) = videos w"
  "promises (cleanupHls c w) = promises w" "randomsUsed (cleanupHls c w) = randomsUsed w"
  "length (engines (cleanupHls c w)) = length (engines w)"
  "length (sessions (cleanupHls c w)) = length (sessions w)"
  by (simp_all add: cleanupHls_def Let_def updSession_def split: option.splits)

lemma setPlaceholder_view [simp]:
  "stableView (setPlaceholder i m w) = stableView w" "seqView (setPlaceholder i m w) = seqView w"
  by (simp_all add: setPlaceholder_def Let_def split: option.splits prod.splits)

lemmas setPlaceholder_fields [simp] = setPlaceholder_view(1)[THEN stableViewD] setPlaceholder_view(2)[THEN seqViewD]

lemma setPlaceholder_other [simp]:
  "timers (setPlaceholder i m w) = timers w" "sessions (setPlaceholder i m w) = sessions w"
  "promises (setPlaceholder i m w) = promises w" "randomsUsed (setPlaceholder i m w) = randomsUsed w"
  "engines (setPlaceholder i m w) = engines w"
  "length (videos (setPlaceholder i m w)) = length (videos w)"
  by (simp_all add: setPlaceholder_def Let_def prim split: option.splits prod.splits)

lemma getCamera_setPlaceholder [simp]: "getCamera (setPlaceholder i m w) j = getCamera w j"
  by (rule getCamera_cong) simp_all

lemma scheduleRetry_view [simp]:
  "stableView (scheduleRetry i cam w) = stableView w" "seqView (scheduleRetry i cam w) = seqView w"
  by (simp_all add: scheduleRetry_def Let_def split: option.splits prod.splits)

lemmas scheduleRetry_fields [simp] = scheduleRetry_view(1)[THEN stableViewD] scheduleRetry_view(2)[THEN seqViewD]

lemma scheduleRetry_other [simp]:
  "videos (scheduleRetry i cam w) = videos w"
  "promises (scheduleRetry i cam w) = promises w"
  "engines (scheduleRetry i cam w) = engines w"
  "length (sessions (scheduleRetry i cam w)) = length (sessions w)"
  by (simp_all add: scheduleRetry_def Let_def prim split: option.splits prod.splits)

lemma initHlsStream_view [simp]:
  "stableView (initHlsStream i cam w) = stableView w" "seqView (initHlsStream i cam w) = seqView w"
  by (simp_all add: initHlsStream_def Let_def split: option.splits prod.splits)

lemmas initHlsStream_fields [simp] = initHlsStream_view(1)[THEN stableViewD] initHlsStream_view(2)[THEN seqViewD]

lemma initializeStream_view [simp]:
  "stableView (initializeStream i cam w) = stableView w" "seqView (initializeStream i cam w) = seqView w"
  by (simp_all add: initializeStream_def Let_def split: option.splits prod.splits)

lemmas initializeStream_fields [simp] = initializeStream_view(1)[THEN stableViewD] initializeStream_view(2)[THEN seqViewD]

lemma recoverCamera_view [simp]:
  "stableView (recoverCamera i cam w) = stableView w" "seqView (recoverCamera i cam w) = seqView w"
  by (simp_all add: recoverCamera_def Let_def split: option.splits prod.splits)

lemmas recoverCamera_fields [simp] = recoverCamera_view(1)[THEN stableViewD] recoverCamera_view(2)[THEN seqViewD]

lemma checkCameraHealth_view [simp]:
  "stableView (checkCameraHealth now ic w) = stableView w" "seqView (checkCameraHealth now ic w) = seqView w"
  by (simp_all add: checkCameraHealth_def Let_def split: option.splits prod.splits)

lemmas checkCameraHealth_fields [simp] = checkCameraHealth_view(1)[THEN stableViewD] checkCameraHealth_view(2)[THEN seqViewD]

lemma checkAllCameraHealth_view [simp]:
  "stableView (checkAllCameraHealth w) = stableView w" "seqView (checkAllCameraHealth w) = seqView w"
  by (simp_all add: checkAllCameraHealth_def
        fold_keeps[where V=stableView, OF checkCameraHealth_view(1)]
        fold_keeps[where V=seqView, OF checkCameraHealth_view(2)])

lemmas checkAllCameraHealth_fields [simp] = checkAllCameraHealth_view(1)[THEN stableViewD] checkAllCameraHealth_view(2)[THEN seqViewD]

lemma pauseOne_view [simp]: "stableView (pauseOne ic w) = stableView w"
  by (simp add: pauseOne_def Let_def split: option.splits)

lemma pauseAllStreams_view [simp]: "stableView (pauseAllStreams w) = stableView w"
  by (simp add: pauseAllStreams_def fold_keeps[where V=stableView, OF pauseOne_view])

lemmas pauseAllStreams_fields [simp] = pauseAllStreams_view[THEN stableViewD]

lemma initNextFrom_view [simp]: "stableView (initNextFrom q w) = stableView w"
  by (induction q arbitrary: w) (simp_all add: Let_def split: option.splits prod.splits)

lemmas initNextFrom_fields [simp] = initNextFrom_view[THEN stableViewD]

lemma initNextCamera_view [simp]: "stableView (initNextCamera w) = stableView w"
  by (simp add: initNextCamera_def)

lemmas initNextCamera_fields [simp] = initNextCamera_view[THEN stableViewD]

lemma sequentialInit_view [simp]: "stableView (sequentialInit q w) = stableView w"
  by (simp add: sequentialInit_def Let_def)

lemmas sequentialInit_fields [simp] = sequentialInit_view[THEN stableViewD]

lemma seqOnPlaying_view [simp]: "stableView (seqOnPlaying k w) = stableView w"
  by (simp add: seqOnPlaying_def Let_def split: option.splits)

lemmas seqOnPlaying_fields [simp] = seqOnPlaying_view[THEN stableViewD]

lemma seqOnTimeout_view [simp]: "stableView (seqOnTimeout k w) = stableView w"
  by (simp add: seqOnTimeout_def Let_def split: option.splits)

lemmas seqOnTimeout_fields [simp] = seqOnTimeout_view[THEN stableViewD]

lemma initializeAll_view [simp]:
  "stableView (initializeAll q w) = stableView w" "seqView (initializeAll q w) = seqView w"
  by (simp_all add: initializeAll_def fold_keeps[where V=stableView] fold_keeps[where V=seqView])

lemmas initializeAll_fields [simp] = initializeAll_view(1)[THEN stableViewD] initializeAll_view(2)[THEN seqViewD]

lemma resumeOne_view [simp]:
  "stableView (fst (resumeOne ic wa)) = stableView (fst wa)"
  "seqView (fst (resumeOne ic wa)) = seqView (fst wa)"
  by (simp_all add: resumeOne_def Let_def split: option.splits)

lemma fold_resumeOne_view [simp]:
  "stableView (fst (fold resumeOne xs wa)) = stableView (fst wa)"
  "seqView (fst (fold resumeOne xs wa)) = seqView (fst wa)"
  by (induction xs arbitrary: wa) simp_all

lemma resumeAllStreams_view [simp]: "stableView (resumeAllStreams w) = stableView w"
  by (simp add: resumeAllStreams_def Let_def)

lemmas resumeAllStreams_fields [simp] = resumeAllStreams_view[THEN stableViewD]

lemma handleHlsError_view [simp]:
  "stableView (snd (handleHlsError i cam ed w)) = stableView w"
  "seqView (snd (handleHlsError i cam ed w)) = seqView w"
  by (simp_all add: handleHlsError_def Let_def split: option.splits prod.splits hls_error_type.splits)

lemmas handleHlsError_fields [simp] = handleHlsError_view(1)[THEN stableViewD] handleHlsError_view(2)[THEN seqViewD]

lemma hlsHandler_view [simp]:
  "stableView (hlsHandler h ev w) = stableView w" "seqView (hlsHandler h ev w) = seqView w"
  by (cases ev; simp add: onMediaAttached_def onManifestParsed_def onHlsError_def onFragBuffered_def
        onLevelLoaded_def split: option.splits)+

lemma hlsEmit_view [simp]:
  "stableView (hlsEmit h ev w) = stableView w" "seqView (hlsEmit h ev w) = seqView w"
  by (simp_all add: hlsEmit_def split: option.splits)

lemmas hlsEmit_fields [simp] = hlsEmit_view(1)[THEN stableViewD] hlsEmit_view(2)[THEN seqViewD]

lemma runListener_view [simp]: "stableView (runListener l w) = stableView w"
  by (cases l) (simp_all add: onStalled_def onError_def onWaiting_def onPlaying_def split: option.splits)

lemma dispatchEvent_view [simp]: "stableView (dispatchEvent e ev w) = stableView w"
  by (simp add: dispatchEvent_def fold_keeps[where V=stableView] split: option.splits)

lemmas dispatchEvent_fields [simp] = dispatchEvent_view[THEN stableViewD]

lemma settlePlay_view [simp]:
  "stableView (settlePlay p ok w) = stableView w" "seqView (settlePlay p ok w) = seqView w"
  by (simp_all add: settlePlay_def Let_def split: option.splits reaction.splits)

lemmas settlePlay_fields [simp] = settlePlay_view(1)[THEN stableViewD] settlePlay_view(2)[THEN seqViewD]

lemma runCallback_view [simp]: "stableView (runCallback cb w) = stableView w"
  by (cases cb) (simp_all add: Let_def)

lemma fireTimer_view [simp]: "stableView (fireTimer t w) = stableView w"
  by (simp add: fireTimer_def split: option.splits)

lemmas fireTimer_fields [simp] = fireTimer_view[THEN stableViewD]

lemma destroyCamera_view [simp]:
  "stableView (destroyCamera i w) = stableView w" "seqView (destroyCamera i w) = seqView w"
  by (simp_all add: destroyCamera_def Let_def split: option.splits prod.splits)

lemmas destroyCamera_fields [simp] = destroyCamera_view(1)[THEN stableViewD] destroyCamera_view(2)[THEN seqViewD]

lemma forceRecover_view [simp]:
  "stableView (forceRecover i w) = stableView w" "seqView (forceRecover i w) = seqView w"
  "stableView (forceRecoverOne ic w) = stableView w" "seqView (forceRecoverOne ic w) = seqView w"
  "stableView (forceRecoverAll w) = stableView w" "seqView (forceRecoverAll w) = seqView w"
  by (simp_all add: forceRecover_def forceRecoverOne_def forceRecoverAll_def
        fold_keeps[where V=stableView] fold_keeps[where V=seqView] split: option.splits)

subsection \<open>Destroyed sessions\<close>

lemma graves_length [simp]: "length (graves w) = length (sessions w)"
  by (simp add: graves_def)

lemma graves_nth [simp]:
  "c < length (sessions w) \<Longrightarrow>
     graves w ! c = (if isDestroyed (sessions w ! c) then Some (sessions w ! c) else None)"
  by (simp add: graves_def)

lemma graves_cong: "sessions w' = sessions w \<Longrightarrow> graves w' = graves w"
  by (simp add: graves_def)

lemma graves_updates [simp]:
  "graves (w\<lparr>videos := b\<rparr>) = graves w"
  "graves (w\<lparr>engines := c\<rparr>) = graves w"
  "graves (w\<lparr>timers := d\<rparr>) = graves w"
  "graves (w\<lparr>promises := e\<rparr>) = graves w"
  "graves (w\<lparr>randomsUsed := f\<rparr>) = graves w"
  "graves (w\<lparr>closures := g\<rparr>) = graves w"
  "graves (w\<lparr>healthCheckInterval := h\<rparr>) = graves w"
  "graves (w\<lparr>initQueue := i\<rparr>) = graves w"
  "graves (w\<lparr>isInitializing := j\<rparr>) = graves w"
  "graves (w\<lparr>isPageVisible := k\<rparr>) = graves w"
  by (simp_all add: graves_def)

lemma graves_prims [simp]:
  "graves (updVideo e fv w) = graves w"
  "graves (updEngine h fe w) = graves w"
  "graves (updTimer t ft w) = graves w"
  "graves (updClosure k fk w) = graves w"
  "graves (setTimeout cb dl w) = graves w"
  "graves (setInterval cb dl w) = graves w"
  "graves (clearTimeout t w) = graves w"
  "graves (play e r w) = graves w"
  "graves (callEngine h x w) = graves w"
  "graves (hlsOff hn w) = graves w"
  "graves (nextRandom w) = graves w"
  by (simp_all add: prim graves_def)

lemma graves_updSession:
  assumes "c < length (sessions w) \<Longrightarrow> \<not> isDestroyed (sessions w ! c) \<and> \<not> isDestroyed (g (sessions w ! c))"
  shows "graves (updSession c g w) = graves w"
proof (cases "c < length (sessions w)")
  case True
  with assms have "\<not> isDestroyed (sessions w ! c)" "\<not> isDestroyed (g (sessions w ! c))" by auto
  with True show ?thesis
    by (auto simp: graves_def updSession_def list_eq_iff_nth_eq nth_list_update)
next
  case False
  then show ?thesis by (simp add: graves_def updSession_def list_update_beyond)
qed

lemma graves_updSession_live [simp]:
  "graves w ! c = None \<Longrightarrow> (\<And>d. isDestroyed (g d) = isDestroyed d) \<Longrightarrow>
     graves (updSession c g w) = graves w"
  by (rule graves_updSession) (auto split: if_splits)

lemma getCamera_live:
  "getCamera w i = Some (c, d) \<Longrightarrow> \<not> isDestroyed d \<Longrightarrow> graves w ! c = None \<and> c < length (sessions w)"
  by (auto dest: getCamera_SomeD)

lemma lookup_live:
  "lookup (sessions w) c = Some d \<Longrightarrow> \<not> isDestroyed d \<Longrightarrow> graves w ! c = None \<and> c < length (sessions w)"
  by (auto simp: lookup_Some_iff)

lemma graves_fold_hlsOff [simp]: "graves (fold hlsOff xs w) = graves w"
  by (rule graves_cong) simp

lemma graves_releaseEngine [simp]: "graves (releaseEngine h w) = graves w"
  by (rule graves_cong) simp

lemma graves_setPlaceholder [simp]: "graves (setPlaceholder i m w) = graves w"
  by (rule graves_cong) simp

lemma graves_cleanupHls [simp]: "graves w ! c = None \<Longrightarrow> graves (cleanupHls c w) = graves w"
  by (simp add: cleanupHls_def Let_def split: option.splits)

lemma graves_scheduleRetry [simp]: "graves (scheduleRetry i cam w) = graves w"
  by (auto simp: scheduleRetry_def Let_def dest!: getCamera_live split: option.splits)

lemma graves_initHlsStream [simp]: "graves (initHlsStream i cam w) = graves w"
  by (auto simp: initHlsStream_def Let_def dest!: getCamera_live split: option.splits)

lemma graves_initializeStream [simp]: "graves (initializeStream i cam w) = graves w"
  by (auto simp: initializeStream_def Let_def split: option.splits)

lemma graves_recoverCamera [simp]: "graves (recoverCamera i cam w) = graves w"
  by (auto simp: recoverCamera_def Let_def dest!: getCamera_live split: option.splits)

lemma graves_checkCameraHealth [simp]: "graves (checkCameraHealth now ic w) = graves w"
proof (cases "lookup (sessions w) (snd ic)")
  case None
  then show ?thesis by (simp add: checkCameraHealth_def)
next
  case (Some d)
  show ?thesis
  proof (cases "isDestroyed d")
    case True
    with Some show ?thesis by (simp add: checkCameraHealth_def)
  next
    case False
    from lookup_live[OF Some False] have live: "graves w ! snd ic = None" by simp
    show ?thesis
      using Some False live
      by (simp add: checkCameraHealth_def Let_def split: option.splits)
  qed
qed

lemma graves_checkAllCameraHealth [simp]: "graves (checkAllCameraHealth w) = graves w"
  by (simp add: checkAllCameraHealth_def fold_keeps[where V=graves, OF graves_checkCameraHealth])

lemma graves_pauseOne [simp]: "graves (pauseOne ic w) = graves w"
proof (cases "lookup (sessions w) (snd ic)")
  case None
  then show ?thesis by (simp add: pauseOne_def)
next
  case (Some d)
  show ?thesis
  proof (cases "isDestroyed d")
    case True
    with Some show ?thesis by (simp add: pauseOne_def)
  next
    case False
    from lookup_live[OF Some False] have live: "graves w ! snd ic = None" by simp
    show ?thesis using Some False live
      by (simp add: pauseOne_def Let_def split: option.splits)
  qed
qed

lemma graves_stopHealthMonitor [simp]: "graves (stopHealthMonitor w) = graves w"
  by (simp add: stopHealthMonitor_def split: option.splits)

lemma graves_startHealthMonitor [simp]: "graves (startHealthMonitor w) = graves w"
  by (simp add: startHealthMonitor_def Let_def)

lemma graves_pauseAllStreams [simp]: "graves (pauseAllStreams w) = graves w"
  by (simp add: pauseAllStreams_def fold_keeps[where V=graves, OF graves_pauseOne])

lemma graves_initNextFrom [simp]: "graves (initNextFrom q w) = graves w"
proof (induction q arbitrary: w)
  case Nil
  then show ?case by (simp add: Let_def)
next
  case (Cons ic q)
  show ?case
  proof (cases "getCamera (w\<lparr>initQueue := q\<rparr>) (fst ic)")
    case None
    then show ?thesis using Cons.IH by (simp add: Let_def)
  next
    case (Some cd)
    obtain c d where cd: "cd = (c, d)" by (cases cd)
    show ?thesis
    proof (cases "isDestroyed d")
      case True
      then show ?thesis using Some cd Cons.IH by (simp add: Let_def)
    next
      case False
      from getCamera_live[OF Some[unfolded cd] False]
      have live: "graves w ! c = None" by simp
      show ?thesis using Some cd False live Cons.IH
        by (simp add: Let_def)
    qed
  qed
qed

lemma graves_initNextCamera [simp]: "graves (initNextCamera w) = graves w"
  by (simp add: initNextCamera_def)

lemma graves_sequentialInit [simp]: "graves (sequentialInit q w) = graves w"
  by (simp add: sequentialInit_def Let_def)

lemma graves_seqOnPlaying [simp]: "graves (seqOnPlaying k w) = graves w"
  by (simp add: seqOnPlaying_def Let_def split: option.splits)

lemma graves_seqOnTimeout [simp]: "graves (seqOnTimeout k w) = graves w"
  by (simp add: seqOnTimeout_def Let_def split: option.splits)

lemma graves_initializeAll [simp]: "graves (initializeAll q w) = graves w"
  by (simp add: initializeAll_def fold_keeps[where V=graves])

lemma graves_handleHlsError [simp]: "graves (snd (handleHlsError i cam ed w)) = graves w"
proof (cases "getCamera w i")
  case None
  then show ?thesis by (simp add: handleHlsError_def)
next
  case (Some cd)
  obtain c d where cd: "cd = (c, d)" by (cases cd)
  show ?thesis
  proof (cases "isDestroyed d")
    case True
    then show ?thesis using Some cd by (simp add: handleHlsError_def)
  next
    case False
    from getCamera_live[OF Some[unfolded cd] False]
    have live: "graves w ! c = None" by simp
    show ?thesis using Some cd False live
      by (simp add: handleHlsError_def Let_def split: option.splits hls_error_type.splits)
  qed
qed

lemma graves_hlsHandler [simp]: "graves (hlsHandler h ev w) = graves w"
  by (cases ev) (auto simp: onMediaAttached_def onManifestParsed_def onHlsError_def onFragBuffered_def
        onLevelLoaded_def dest!: lookup_live split: option.splits)

lemma graves_hlsEmit [simp]: "graves (hlsEmit h ev w) = graves w"
  by (simp add: hlsEmit_def split: option.splits)

lemma graves_runListener [simp]: "graves (runListener l w) = graves w"
  by (cases l) (auto simp: onStalled_def onError_def onWaiting_def onPlaying_def
        dest!: lookup_live split: option.splits)

lemma graves_dispatchEvent [simp]: "graves (dispatchEvent e ev w) = graves w"
  by (simp add: dispatchEvent_def fold_keeps[where V=graves] split: option.splits)

lemma graves_forceRecover [simp]:
  "graves (forceRecover i w) = graves w"
  "graves (forceRecoverOne ic w) = graves w"
  "graves (forceRecoverAll w) = graves w"
  by (simp_all add: forceRecover_def forceRecoverOne_def forceRecoverAll_def
        fold_keeps[where V=graves] split: option.splits)

lemma graves_resumeOne [simp]: "graves (fst (resumeOne ic wa)) = graves (fst wa)"
proof (cases "lookup (sessions (fst wa)) (snd ic)")
  case None
  then show ?thesis by (simp add: resumeOne_def)
next
  case (Some d)
  show ?thesis
  proof (cases "isDestroyed d")
    case True
    with Some show ?thesis by (simp add: resumeOne_def)
  next
    case False
    from lookup_live[OF Some False] have live: "graves (fst wa) ! snd ic = None" by simp
    show ?thesis using Some False live
      by (simp add: resumeOne_def Let_def split: option.splits)
  qed
qed

lemma graves_fold_resumeOne [simp]: "graves (fst (fold resumeOne xs wa)) = graves (fst wa)"
  by (induction xs arbitrary: wa) simp_all

lemma graves_resumeAllStreams [simp]: "graves (resumeAllStreams w) = graves w"
  by (simp add: resumeAllStreams_def Let_def)

lemma graves_visibilityChange [simp]: "graves (visibilityChange hidden w) = graves w"
  by (simp add: visibilityChange_def Let_def)

subsection \<open>Retries and released engines\<close>

lemma scheduleRetry_result:
  assumes g: "getCamera w i = Some (c, d)" and nd: "\<not> isDestroyed d"
  shows "timers (scheduleRetry i cam w) =
           (case retryTimeout d of
              None \<Rightarrow> timers w
            | Some t \<Rightarrow> (timers w)[t := (timers w ! t)\<lparr>pending := False\<rparr>]) @
           [\<lparr>callback = (if retryCount d < 10 then RetryBackoff c i cam else RetryCooldown c i cam),
             delay = (if retryCount d < 10
                      then min (toDouble (toDouble (3000 * toDouble ((3 / 2) ^ retryCount d)) +
                                          toDouble (mathRandom w * 1000))) 120000
                      else 300000),
             setAt = clock w, repeats = False, pending = True\<rparr>]"
    and "sessions (scheduleRetry i cam w) =
           (sessions w)[c := d\<lparr>retryCount := (if retryCount d < 10 then retryCount d + 1 else 0),
                                 retryTimeout := Some (nextTimer w)\<rparr>]"
    and "videos (scheduleRetry i cam w) = videos w" and "engines (scheduleRetry i cam w) = engines w"
  using getCamera_SomeD[OF g] g nd
  by (auto simp add: scheduleRetry_def Let_def prim maxRetryAttempts_def maxRetryDelay_def
        baseRetryDelay_def split: option.splits)


lemma releaseEngine_calls:
  assumes "lookup (engines w) h = Some g"
  shows "lookup (engines (releaseEngine h w)) h =
           Some (g\<lparr>calls := calls g @
                  (if engineThrows w h StopLoad then [StopLoad]
                   else if engineThrows w h DetachMedia then [StopLoad, DetachMedia]
                   else [StopLoad, DetachMedia, DestroyEngine])\<rparr>)"
  using lookup_nthD[OF assms] by (simp add: releaseEngine_def Let_def prim)

lemma hlsOff_engine:
  "lookup (engines w) h = Some g \<Longrightarrow>
     lookup (engines (hlsOff (h', n) w)) h =
       Some (if h' = h then g\<lparr>handlers := filter (\<lambda>x. x \<noteq> n) (handlers g)\<rparr> else g)"
  by (auto simp: hlsOff_def updEngine_def dest: lookup_nthD)

lemma fold_hlsOff_engine:
  "lookup (engines w) h = Some g \<Longrightarrow>
     lookup (engines (fold hlsOff xs w)) h =
       Some (g\<lparr>handlers := filter (\<lambda>n. (h, n) \<notin> set xs) (handlers g)\<rparr>)"
proof (induction xs arbitrary: w g)
  case Nil
  then show ?case by simp
next
  case (Cons x xs)
  obtain h' n where x: "x = (h', n)" by (cases x)
  let ?g1 = "if h' = h then g\<lparr>handlers := filter (\<lambda>x. x \<noteq> n) (handlers g)\<rparr> else g"
  have "lookup (engines (hlsOff x w)) h = Some ?g1"
    unfolding x by (rule hlsOff_engine[OF Cons.prems])
  from Cons.IH[OF this] show ?case
    by (auto simp: x intro!: filter_cong)
qed

lemma cleanupHls_engine:
  assumes s: "lookup (sessions w) c = Some d" and h: "hls d = Some h"
    and e: "lookup (engines w) h = Some g"
  shows "lookup (engines (cleanupHls c w)) h =
           Some (g\<lparr>calls := calls g @
                  (if engineThrows w h StopLoad then [StopLoad]
                   else if engineThrows w h DetachMedia then [StopLoad, DetachMedia]
                   else [StopLoad, DetachMedia, DestroyEngine]),
                 handlers := filter (\<lambda>n. (h, n) \<notin> set (eventCleanups d)) (handlers g)\<rparr>)"
proof -
  let ?w1 = "updSession c (\<lambda>x. x\<lparr>eventCleanups := []\<rparr>) (fold hlsOff (eventCleanups d) w)"
  let ?g1 = "g\<lparr>handlers := filter (\<lambda>n. (h, n) \<notin> set (eventCleanups d)) (handlers g)\<rparr>"
  have g1: "lookup (engines ?w1) h = Some ?g1"
    using fold_hlsOff_engine[OF e, of "eventCleanups d"] by (simp add: updSession_def)
  have t: "engineThrows ?w1 = engineThrows w" by simp
  from releaseEngine_calls[OF g1] t
  show ?thesis using s h by (simp add: cleanupHls_def Let_def updSession_def)
qed



subsection \<open>Pausing\<close>

lemma nth_upd: "xs[i := x] ! j = (if j = i \<and> i < length xs then x else xs ! j)"
  by (cases "i < length xs") (auto simp: list_update_beyond)

lemma onlyStopLoads_refl [simp]: "onlyStopLoads es es"
  unfolding onlyStopLoads_def by (auto intro: exI[of _ 0])

lemma onlyStopLoads_trans:
  assumes "onlyStopLoads a b" "onlyStopLoads b c"
  shows "onlyStopLoads a c"
  unfolding onlyStopLoads_def
proof (intro conjI allI impI)
  show "length c = length a" using assms by (simp add: onlyStopLoads_def)
next
  fix h assume h: "h < length a"
  from assms h obtain n where n: "b ! h = (a ! h)\<lparr>calls := calls (a ! h) @ replicate n StopLoad\<rparr>"
    by (auto simp: onlyStopLoads_def)
  from assms h obtain m where m: "c ! h = (b ! h)\<lparr>calls := calls (b ! h) @ replicate m StopLoad\<rparr>"
    by (auto simp: onlyStopLoads_def)
  show "\<exists>n. c ! h = (a ! h)\<lparr>calls := calls (a ! h) @ replicate n StopLoad\<rparr>"
    using n m by (intro exI[of _ "n + m"]) (simp add: replicate_add)
qed

lemma onlyPaused_refl [simp]: "onlyPaused vs vs"
  by (simp add: onlyPaused_def)

lemma onlyPaused_trans: "onlyPaused a b \<Longrightarrow> onlyPaused b c \<Longrightarrow> onlyPaused a c"
  unfolding onlyPaused_def by (fastforce)

lemma onlyCleared_refl [simp]: "onlyCleared ts ts"
  by (simp add: onlyCleared_def)

lemma onlyCleared_trans: "onlyCleared a b \<Longrightarrow> onlyCleared b c \<Longrightarrow> onlyCleared a c"
  unfolding onlyCleared_def by (fastforce)

lemma onlyCleared_update:
  "onlyCleared ts (ts[t := (ts ! t)\<lparr>pending := False\<rparr>])"
  by (auto simp: onlyCleared_def nth_upd)

lemma onlyPaused_update:
  "onlyPaused vs (vs[e := pauseVideo (vs ! e)])"
  by (auto simp: onlyPaused_def nth_upd pauseVideo_def)

lemma onlyStopLoads_update:
  "onlyStopLoads es (es[h := (es ! h)\<lparr>calls := calls (es ! h) @ [StopLoad]\<rparr>])"
  unfolding onlyStopLoads_def
proof (intro conjI allI impI)
  fix k assume "k < length es"
  then show "\<exists>n. es[h := (es ! h)\<lparr>calls := calls (es ! h) @ [StopLoad]\<rparr>] ! k =
               (es ! k)\<lparr>calls := calls (es ! k) @ replicate n StopLoad\<rparr>"
    by (cases "k = h") (auto simp: nth_upd intro: exI[of _ 0] exI[of _ 1])
qed simp

lemma streamHandles_updSession:
  "(\<And>d. hls (f d) = hls d \<and> element (f d) = element d \<and> isDestroyed (f d) = isDestroyed d) \<Longrightarrow>
     streamHandles (updSession c f w) = streamHandles w"
  by (auto simp: streamHandles_def updSession_def list_eq_iff_nth_eq nth_upd)

lemma streamHandles_prims [simp]:
  "streamHandles (updVideo e fv w) = streamHandles w"
  "streamHandles (updEngine h fe w) = streamHandles w"
  "streamHandles (updTimer t ft w) = streamHandles w"
  "streamHandles (clearTimeout t w) = streamHandles w"
  "streamHandles (callEngine h x w) = streamHandles w"
  "streamHandles (w\<lparr>isPageVisible := b\<rparr>) = streamHandles w"
  "streamHandles (w\<lparr>healthCheckInterval := i\<rparr>) = streamHandles w"
  by (simp_all add: streamHandles_def prim)

lemma stopHealthMonitor_effect:
  "sessions (stopHealthMonitor w) = sessions w" "videos (stopHealthMonitor w) = videos w"
  "engines (stopHealthMonitor w) = engines w" "healthCheckInterval (stopHealthMonitor w) = None"
  "onlyCleared (timers w) (timers (stopHealthMonitor w))"
  "healthCheckInterval w = Some t \<Longrightarrow> t < length (timers w) \<Longrightarrow>
     \<not> pending (timers (stopHealthMonitor w) ! t)"
  by (auto simp: stopHealthMonitor_def prim onlyCleared_update split: option.splits)

lemma pauseOne_effect:
  "streamHandles (pauseOne ic w) = streamHandles w"
  "onlyStopLoads (engines w) (engines (pauseOne ic w))"
  "onlyPaused (videos w) (videos (pauseOne ic w))"
  "onlyCleared (timers w) (timers (pauseOne ic w))"
  "healthCheckInterval (pauseOne ic w) = healthCheckInterval w"
proof -
  show "streamHandles (pauseOne ic w) = streamHandles w"
    by (simp add: pauseOne_def Let_def streamHandles_updSession split: option.splits)
  show "onlyStopLoads (engines w) (engines (pauseOne ic w))"
    by (auto simp: pauseOne_def Let_def prim onlyStopLoads_update split: option.splits)
  show "onlyPaused (videos w) (videos (pauseOne ic w))"
    by (auto simp: pauseOne_def Let_def prim onlyPaused_update lookup_def split: option.splits if_splits)
  show "onlyCleared (timers w) (timers (pauseOne ic w))"
    by (auto simp: pauseOne_def Let_def prim onlyCleared_update split: option.splits)
  show "healthCheckInterval (pauseOne ic w) = healthCheckInterval w"
    by (auto simp: pauseOne_def Let_def prim split: option.splits)
qed

lemma pauseOne_hit:
  assumes s: "lookup (sessions w) (snd ic) = Some d" and nd: "\<not> isDestroyed d"
  shows "lookup (videos w) (element d) = Some v \<Longrightarrow>
           \<exists>v'. lookup (videos (pauseOne ic w)) (element d) = Some v' \<and> paused v'"
    and "hls d = Some h \<Longrightarrow> lookup (engines w) h = Some g \<Longrightarrow>
           lookup (engines (pauseOne ic w)) h = Some (g\<lparr>calls := calls g @ [StopLoad]\<rparr>)"
proof -
  assume v: "lookup (videos w) (element d) = Some v"
  show "\<exists>v'. lookup (videos (pauseOne ic w)) (element d) = Some v' \<and> paused v'"
    using s nd v lookup_nthD[OF v]
    by (auto simp: pauseOne_def Let_def prim pauseVideo_def split: option.splits)
next
  assume h: "hls d = Some h" and g: "lookup (engines w) h = Some g"
  show "lookup (engines (pauseOne ic w)) h = Some (g\<lparr>calls := calls g @ [StopLoad]\<rparr>)"
    using s nd h g lookup_nthD[OF g]
    by (auto simp: pauseOne_def Let_def prim split: option.splits)
qed

lemma streamHandles_nth:
  assumes "streamHandles w' = streamHandles w" "lookup (sessions w) c = Some d"
  shows "\<exists>d'. lookup (sessions w') c = Some d' \<and> hls d' = hls d \<and> element d' = element d \<and>
           isDestroyed d' = isDestroyed d"
proof -
  from assms(1) have l: "length (sessions w') = length (sessions w)"
    by (metis length_map streamHandles_def)
  from lookup_nthD[OF assms(2)] have c: "c < length (sessions w)" "sessions w ! c = d" by auto
  from assms(1) c(1) l have "streamHandles w' ! c = streamHandles w ! c" by simp
  then show ?thesis using c l by (simp add: streamHandles_def lookup_def)
qed

lemma onlyStopLoads_nth:
  assumes "onlyStopLoads es es'" "lookup es h = Some g"
  shows "\<exists>g' n. lookup es' h = Some g' \<and> calls g' = calls g @ replicate n StopLoad"
  using assms lookup_nthD[OF assms(2)]
  by (fastforce simp: onlyStopLoads_def lookup_def)

lemma onlyPaused_nth:
  assumes "onlyPaused vs vs'" "lookup vs e = Some v"
  shows "\<exists>v'. lookup vs' e = Some v' \<and> (paused v \<longrightarrow> paused v')"
  using assms lookup_nthD[OF assms(2)]
  by (fastforce simp: onlyPaused_def lookup_def)

lemma fold_pauseOne_effect:
  "streamHandles (fold pauseOne xs w) = streamHandles w \<and>
   onlyStopLoads (engines w) (engines (fold pauseOne xs w)) \<and>
   onlyPaused (videos w) (videos (fold pauseOne xs w)) \<and>
   onlyCleared (timers w) (timers (fold pauseOne xs w)) \<and>
   healthCheckInterval (fold pauseOne xs w) = healthCheckInterval w"
proof (induction xs rule: rev_induct)
  case Nil
  then show ?case by simp
next
  case (snoc x xs)
  then show ?case
    using pauseOne_effect[where ic=x and w="fold pauseOne xs w"]
    by (auto intro: onlyStopLoads_trans onlyPaused_trans onlyCleared_trans)
qed

lemma fold_pauseOne_hit:
  assumes "ic \<in> set xs" and s: "lookup (sessions w) (snd ic) = Some d" and nd: "\<not> isDestroyed d"
  shows "(\<forall>v. lookup (videos w) (element d) = Some v \<longrightarrow>
            (\<exists>v'. lookup (videos (fold pauseOne xs w)) (element d) = Some v' \<and> paused v')) \<and>
         (\<forall>h g. hls d = Some h \<longrightarrow> lookup (engines w) h = Some g \<longrightarrow>
            (\<exists>g' n. lookup (engines (fold pauseOne xs w)) h = Some g' \<and>
                    calls g' = calls g @ replicate (Suc n) StopLoad))"
  using assms(1)
proof (induction xs rule: rev_induct)
  case Nil
  then show ?case by simp
next
  case (snoc x xs)
  let ?m = "fold pauseOne xs w"
  note mid = fold_pauseOne_effect[where xs=xs and w=w]
  from streamHandles_nth[OF mid[THEN conjunct1] s] nd obtain dm where
    dm: "lookup (sessions ?m) (snd ic) = Some dm" "hls dm = hls d" "element dm = element d"
        "\<not> isDestroyed dm" by auto
  note last = pauseOne_effect[where ic=x and w="?m"]
  show ?case
  proof (intro conjI allI impI)
    fix v assume v: "lookup (videos w) (element d) = Some v"
    from onlyPaused_nth[OF mid[THEN conjunct2, THEN conjunct2, THEN conjunct1] v]
    obtain vm where vm: "lookup (videos ?m) (element d) = Some vm" by blast
    show "\<exists>v'. lookup (videos (fold pauseOne (xs @ [x]) w)) (element d) = Some v' \<and> paused v'"
    proof (cases "ic = x")
      case True
      from pauseOne_hit(1)[OF dm(1) dm(4), where v=vm] vm dm(3) True show ?thesis by simp
    next
      case False
      with snoc.prems have "ic \<in> set xs" by simp
      from snoc.IH[OF this] v obtain v1 where
        v1: "lookup (videos ?m) (element d) = Some v1" "paused v1" by blast
      from onlyPaused_nth[OF last(3) v1(1)] v1(2) show ?thesis by auto
    qed
  next
    fix h g assume h: "hls d = Some h" and g: "lookup (engines w) h = Some g"
    from onlyStopLoads_nth[OF mid[THEN conjunct2, THEN conjunct1] g]
    obtain gm m where gm: "lookup (engines ?m) h = Some gm"
      "calls gm = calls g @ replicate m StopLoad" by blast
    show "\<exists>g' n. lookup (engines (fold pauseOne (xs @ [x]) w)) h = Some g' \<and>
                 calls g' = calls g @ replicate (Suc n) StopLoad"
    proof (cases "ic = x")
      case True
      from pauseOne_hit(2)[OF dm(1) dm(4) _ gm(1)] dm(2) h True
      have "lookup (engines (pauseOne x ?m)) h = Some (gm\<lparr>calls := calls gm @ [StopLoad]\<rparr>)"
        by simp
      then show ?thesis using gm(2)
        by (intro exI[of _ "gm\<lparr>calls := calls gm @ [StopLoad]\<rparr>"] exI[of _ m])
           (simp add: replicate_append_same)
    next
      case False
      with snoc.prems have "ic \<in> set xs" by simp
      from snoc.IH[OF this] h g obtain g1 n where
        g1: "lookup (engines ?m) h = Some g1" "calls g1 = calls g @ replicate (Suc n) StopLoad"
        by blast
      from onlyStopLoads_nth[OF last(2) g1(1)] obtain g2 k where
        g2: "lookup (engines (pauseOne x ?m)) h = Some g2" "calls g2 = calls g1 @ replicate k StopLoad"
        by blast
      show ?thesis using g2 g1(2)
        by (intro exI[of _ g2] exI[of _ "n + k"]) (simp add: replicate_add)
    qed
  qed
qed

lemma fold_pauseOne_view [simp]: "stableView (fold pauseOne xs w) = stableView w"
  by (simp add: fold_keeps[where V=stableView, OF pauseOne_view])

lemmas fold_pauseOne_fields [simp] = fold_pauseOne_view[THEN stableViewD]

lemma onlyCleared_nth:
  assumes "onlyCleared ts ts'" "t < length ts" "\<not> pending (ts ! t)"
  shows "\<not> pending (ts' ! t)"
  using assms by (fastforce simp: onlyCleared_def)

lemma checkAllCameraHealth_hidden: "\<not> isPageVisible u \<Longrightarrow> checkAllCameraHealth u = u"
  by (simp add: checkAllCameraHealth_def)

subsection \<open>The slots of the grid\<close>

lemma fold_destroyCamera_view:
  "stableView (fold destroyCamera xs w) = stableView w"
  by (simp add: fold_keeps[where V=stableView])

lemma destroyAllCameras_fields:
  "cameras (destroyAllCameras w) = []" "cameraConfigs (destroyAllCameras w) = cameraConfigs w"
  "config (destroyAllCameras w) = config w" "isHDMode (destroyAllCameras w) = isHDMode w"
  "gridElement (destroyAllCameras w) = map_option (\<lambda>g. g\<lparr>children := []\<rparr>) (gridElement w)"
  using fold_destroyCamera_view[of "map fst (cameras w)" "w\<lparr>initQueue := [], isInitializing := False\<rparr>",
          THEN stableViewD]
  by (simp_all add: destroyAllCameras_def Let_def)

lemma map_fst_mapSet:
  "map fst (mapSet k v m) = (if k \<in> fst ` set m then map fst m else map fst m @ [k])"
  by (auto simp: mapSet_def split: prod.splits)

lemma createSlot_fields:
  "cameraConfigs (createSlot i w) = cameraConfigs w" "config (createSlot i w) = config w"
  "map fst (cameras (createSlot i w)) =
     (if i < length (cameraConfigs w) \<and> i \<notin> fst ` set (cameras w)
      then map fst (cameras w) @ [i] else map fst (cameras w))"
  by (auto simp: createSlot_def createCameraElement_def Let_def lookup_def appendChild_def
        updVideo_def map_fst_mapSet)

lemma fold_createSlot_configs:
  "cameraConfigs (fold createSlot xs w) = cameraConfigs w" "config (fold createSlot xs w) = config w"
  by (induction xs arbitrary: w; simp add: createSlot_fields)+

lemma fold_createSlot_cameras:
  "cameras w = [] \<Longrightarrow>
     map fst (cameras (fold createSlot [0..<n] w)) =
       filter (\<lambda>i. i < length (cameraConfigs w)) [0..<n]"
proof (induction n)
  case 0
  then show ?case by simp
next
  case (Suc n)
  have "n \<notin> fst ` set (cameras (fold createSlot [0..<n] w))"
    using Suc.IH[OF Suc.prems] by (metis (no_types, lifting) atLeastLessThan_iff filter_is_subset
        less_irrefl set_map set_upt subsetD)
  then show ?case
    using Suc.IH[OF Suc.prems] by (simp add: createSlot_fields fold_createSlot_configs)
qed

lemma setupGrid_cameras:
  assumes "gridElement w \<noteq> None"
  shows "map fst (cameras (setupGrid w)) =
           filter (\<lambda>i. i < length (cameraConfigs w))
             [0..<nat (min (columns (config w) * rows (config w)) (numCameras (config w)))]"
proof -
  let ?w1 = "destroyAllCameras w"
  let ?w2 = "?w1\<lparr>gridElement := map_option
                       (\<lambda>g. g\<lparr>gridTemplateColumns := columns (config w), gridTemplateRows := rows (config w)\<rparr>)
                       (gridElement ?w1)\<rparr>"
  let ?n = "nat (min (columns (config w) * rows (config w)) (numCameras (config w)))"
  have c: "cameras ?w2 = []" "cameraConfigs ?w2 = cameraConfigs w"
    by (simp_all add: destroyAllCameras_fields)
  from fold_createSlot_cameras[OF c(1), of ?n]
  have f: "map fst (cameras (fold createSlot [0..<?n] ?w2)) =
             filter (\<lambda>i. i < length (cameraConfigs w)) [0..<?n]"
    by (simp only: c(2))
  show ?thesis
    using assms f by (auto simp: setupGrid_def Let_def destroyAllCameras_fields)
qed

lemma setupGrid_configs:
  "config (setupGrid w) = config w" "cameraConfigs (setupGrid w) = cameraConfigs w"
  by (simp_all add: setupGrid_def Let_def destroyAllCameras_fields fold_createSlot_configs
        split: option.splits)

lemma calculateGridLayout_room:
  "columns (calculateGridLayout n) \<in> {1, 2, 3, 4, 6}"
  "rows (calculateGridLayout n) =
     \<lceil>real_of_int (clamp n 1 18) / real_of_int (columns (calculateGridLayout n))\<rceil>"
  "clamp n 1 18 \<le> columns (calculateGridLayout n) * rows (calculateGridLayout n)"
proof -
  show "columns (calculateGridLayout n) \<in> {1, 2, 3, 4, 6}"
    by (simp add: calculateGridLayout_def Let_def)
  have idem: "clamp (clamp n 1 18) 1 18 = clamp n 1 18" by (simp add: clamp_def)
  show r: "rows (calculateGridLayout n) =
     \<lceil>real_of_int (clamp n 1 18) / real_of_int (columns (calculateGridLayout n))\<rceil>"
    by (simp add: calculateGridLayout_def Let_def)
  have pos: "0 < columns (calculateGridLayout n)"
    by (simp add: calculateGridLayout_def Let_def)
  define k where "k = clamp n 1 18"
  define c where "c = columns (calculateGridLayout n)"
  have cpos: "0 < real_of_int c" using pos by (simp add: c_def)
  have "real_of_int k / real_of_int c \<le> real_of_int \<lceil>real_of_int k / real_of_int c\<rceil>"
    by (rule le_of_int_ceiling)
  then have "real_of_int k \<le> real_of_int \<lceil>real_of_int k / real_of_int c\<rceil> * real_of_int c"
    using cpos by (simp only: pos_divide_le_eq)
  then have "real_of_int k \<le> real_of_int c * real_of_int \<lceil>real_of_int k / real_of_int c\<rceil>"
    by (simp only: mult.commute)
  then have "k \<le> c * \<lceil>real_of_int k / real_of_int c\<rceil>"
    by (metis of_int_le_iff of_int_mult)
  then show "clamp n 1 18 \<le> columns (calculateGridLayout n) * rows (calculateGridLayout n)"
    unfolding r by (simp add: k_def c_def)
qed

section \<open>Retry policy\<close>

text \<open>
  Claim C4, amended. For a live session with \<open>retryCount = n < 10\<close>, \<^verbatim>\<open>scheduleRetry\<close>
  sets one timer whose delay is the double nearest to \<open>3000 * 1.5^n + j\<close>, capped at
  120000 ms, where \<open>j\<close> is the double nearest to 1000 times the value of
  \<^verbatim>\<open>Math.random()\<close>, a value in \<open>[0, 1)\<close>. The delay is \<open>min (3000 * 1.5^n + j') 120000\<close>
  for a \<open>j'\<close> in the closed interval \<open>[0, 1000]\<close>: for \<open>n = 0, 1, 2, 3\<close> it lies in
  \<open>[3000, 4000]\<close>, \<open>[4500, 5500]\<close>, \<open>[6750, 7750]\<close>, \<open>[10125, 11125]\<close>, and it is never
  above 120000; the counter goes up by one. With \<open>retryCount\<close> at 10 (or more) the timer
  is the cooldown of 300000 ms and the counter is reset to 0.
\<close>

theorem scheduleRetry_delay:
  assumes g: "getCamera w index = Some (c, d)" and nd: "\<not> isDestroyed d"
    and r0: "0 \<le> mathRandom w" and r1: "mathRandom w < 1"
  shows "\<exists>x d'. lookup (timers (scheduleRetry index camera w)) (nextTimer w) = Some x \<and>
           length (timers (scheduleRetry index camera w)) = Suc (nextTimer w) \<and>
           lookup (sessions (scheduleRetry index camera w)) c = Some d' \<and>
           pending x \<and> \<not> repeats x \<and> setAt x = clock w \<and> retryTimeout d' = Some (nextTimer w) \<and>
           (if retryCount d < 10 then
              callback x = RetryBackoff c index camera \<and>
              delay x = min (toDouble (3000 * (3 / 2) ^ retryCount d +
                                       toDouble (mathRandom w * 1000))) 120000 \<and>
              (\<exists>j. 0 \<le> j \<and> j \<le> 1000 \<and> delay x = min (3000 * (3 / 2) ^ retryCount d + j) 120000) \<and>
              delay x \<le> 120000 \<and>
              (retryCount d = 0 \<longrightarrow> 3000 \<le> delay x \<and> delay x \<le> 4000) \<and>
              (retryCount d = 1 \<longrightarrow> 4500 \<le> delay x \<and> delay x \<le> 5500) \<and>
              (retryCount d = 2 \<longrightarrow> 6750 \<le> delay x \<and> delay x \<le> 7750) \<and>
              (retryCount d = 3 \<longrightarrow> 10125 \<le> delay x \<and> delay x \<le> 11125) \<and>
              retryCount d' = retryCount d + 1
            else
              callback x = RetryCooldown c index camera \<and> delay x = 300000 \<and> retryCount d' = 0)"
proof -
  define old where "old = (case retryTimeout d of None \<Rightarrow> timers w
                     | Some t \<Rightarrow> (timers w)[t := (timers w ! t)\<lparr>pending := False\<rparr>])"
  define x where "x = \<lparr>callback = (if retryCount d < 10 then RetryBackoff c index camera
                                     else RetryCooldown c index camera),
             delay = (if retryCount d < 10
                      then min (toDouble (toDouble (3000 * toDouble ((3 / 2) ^ retryCount d)) +
                                          toDouble (mathRandom w * 1000))) 120000
                      else 300000),
             setAt = clock w, repeats = False, pending = True\<rparr>"
  define d' where "d' = d\<lparr>retryCount := (if retryCount d < 10 then retryCount d + 1 else 0),
                                 retryTimeout := Some (nextTimer w)\<rparr>"
  note res = scheduleRetry_result[OF g nd, of camera, folded old_def, folded x_def d'_def]
  have c: "c < length (sessions w)" using getCamera_SomeD[OF g] by simp
  have len: "length old = nextTimer w"
    by (simp add: old_def nextTimer_def split: option.splits)
  have tx: "lookup (timers (scheduleRetry index camera w)) (nextTimer w) = Some x"
    "length (timers (scheduleRetry index camera w)) = Suc (nextTimer w)"
    unfolding res(1) by (simp_all add: len)
  have sd: "lookup (sessions (scheduleRetry index camera w)) c = Some d'"
    unfolding res(2) using c by simp
  have x0: "pending x" "\<not> repeats x" "setAt x = clock w" "retryTimeout d' = Some (nextTimer w)"
    by (simp_all add: x_def d'_def)
  have rest: "if retryCount d < 10 then
              callback x = RetryBackoff c index camera \<and>
              delay x = min (toDouble (3000 * (3 / 2) ^ retryCount d +
                                       toDouble (mathRandom w * 1000))) 120000 \<and>
              (\<exists>j. 0 \<le> j \<and> j \<le> 1000 \<and> delay x = min (3000 * (3 / 2) ^ retryCount d + j) 120000) \<and>
              delay x \<le> 120000 \<and>
              (retryCount d = 0 \<longrightarrow> 3000 \<le> delay x \<and> delay x \<le> 4000) \<and>
              (retryCount d = 1 \<longrightarrow> 4500 \<le> delay x \<and> delay x \<le> 5500) \<and>
              (retryCount d = 2 \<longrightarrow> 6750 \<le> delay x \<and> delay x \<le> 7750) \<and>
              (retryCount d = 3 \<longrightarrow> 10125 \<le> delay x \<and> delay x \<le> 11125) \<and>
              retryCount d' = retryCount d + 1
            else
              callback x = RetryCooldown c index camera \<and> delay x = 300000 \<and> retryCount d' = 0"
  proof (cases "retryCount d < 10")
    case True
    define b where "b = 3000 * (3 / 2 :: real) ^ retryCount d"
    define y where "y = toDouble (b + toDouble (mathRandom w * 1000))"
    note bd = backoff_delay[OF True r0 r1, folded b_def, folded y_def]
    have dx: "delay x = y" using True bd by (simp add: x_def flip: b_def y_def)
    have j: "\<exists>j. 0 \<le> j \<and> j \<le> 1000 \<and> y = min (b + j) 120000"
      using bd by (intro exI[of _ "y - b"]) simp
    have iv: "retryCount d = 0 \<longrightarrow> 3000 \<le> y \<and> y \<le> 4000"
      "retryCount d = 1 \<longrightarrow> 4500 \<le> y \<and> y \<le> 5500"
      "retryCount d = 2 \<longrightarrow> 6750 \<le> y \<and> y \<le> 7750"
      "retryCount d = 3 \<longrightarrow> 10125 \<le> y \<and> y \<le> 11125"
      using bd(2,3) by (auto simp: b_def power2_eq_square power3_eq_cube)
    have y120: "y \<le> 120000" "min y 120000 = y" using bd by simp_all
    have cb: "callback x = RetryBackoff c index camera" "retryCount d' = retryCount d + 1"
      using True by (simp_all add: x_def d'_def)
    show ?thesis
      unfolding dx using True cb j iv y120 by (simp flip: b_def y_def)
  next
    case False
    then show ?thesis by (simp add: x_def d'_def)
  qed
  from tx sd x0 rest show ?thesis by blast
qed

theorem scheduleRetry_delay_witness:
  "map_option (\<lambda>x. (callback x, delay x, pending x))
     (lookup (timers (scheduleRetry 0 camA kioskStarted)) 1) = Some (RetryBackoff 0 0 camA, 3500, True) \<and>
   length (timers (scheduleRetry 0 camA kioskStarted)) = 2 \<and>
   map_option retryCount (lookup (sessions (scheduleRetry 0 camA kioskStarted)) 0) = Some 1"
proof -
  let ?d = "sessions kioskStarted ! 0"
  have g: "getCamera kioskStarted 0 = Some (0, ?d)"
    by (simp add: kioskStarted_eq getCamera_def lookup_def)
  have nd: "\<not> isDestroyed ?d" and rc: "retryCount ?d = 0"
    by (simp_all add: kioskStarted_eq)
  have r: "0 \<le> mathRandom kioskStarted" "mathRandom kioskStarted < 1" "mathRandom kioskStarted = 1 / 2"
    by (simp_all add: kioskStarted_eq mathRandom_def)
  have nt: "nextTimer kioskStarted = 1"
    by (simp add: kioskStarted_eq nextTimer_def)
  from scheduleRetry_delay[OF g nd r(1,2), of camA] show ?thesis
    by (auto simp: rc nt r(3) toDouble_examples)
qed

theorem retry_delay_reaches_4000:
  "retryCount (sessions unluckyStart ! 0) = 0 \<and>
   0 \<le> mathRandom unluckyStart \<and> mathRandom unluckyStart < 1 \<and>
   map delay (timers (scheduleRetry 0 camA unluckyStart)) = [15000, 4000] \<and>
   \<not> delay (timers (scheduleRetry 0 camA unluckyStart) ! 1) < 4000"
proof -
  let ?d = "sessions kioskStarted ! 0"
  have g: "getCamera unluckyStart 0 = Some (0, ?d)"
    by (simp add: unluckyStart_def kioskStarted_eq getCamera_def lookup_def)
  have nd: "\<not> isDestroyed ?d" and rc: "retryCount ?d = 0" and rt: "retryTimeout ?d = None"
    by (simp_all add: kioskStarted_eq)
  have r: "mathRandom unluckyStart = 1 - 1 / 2 ^ 52"
    by (simp add: unluckyStart_def mathRandom_def)
  have t: "map delay (timers unluckyStart) = [15000]" "sessions unluckyStart ! 0 = ?d"
    by (simp_all add: unluckyStart_def kioskStarted_eq)
  have tm: "timers (scheduleRetry 0 camA unluckyStart) =
      timers unluckyStart @ [\<lparr>callback = RetryBackoff 0 0 camA, delay = 4000,
         setAt = clock unluckyStart, repeats = False, pending = True\<rparr>]"
    unfolding scheduleRetry_result(1)[OF g nd, of camA]
    by (simp add: rc rt r double_defs Let_def)
  have l: "length (timers unluckyStart) = 1" using t(1) by (simp flip: length_map[of delay])
  show ?thesis
    by (simp add: tm t rc r l nth_append)
qed

section \<open>Fatal network errors of the engine\<close>




section \<open>Recovery\<close>

text \<open>
  Claim C3. For a live session, \<^verbatim>\<open>recoverCamera\<close> leaves \<open>stallCount\<close>,
  \<open>retryCount\<close>, \<open>lastPlaybackTime\<close> and \<open>lastCheckTime\<close> at zero and no engine
  attached: the session's engine reference is cleared, and the engine it had has lost
  every handler the session had registered and has received \<^verbatim>\<open>stopLoad\<close>,
  \<^verbatim>\<open>detachMedia\<close> and \<^verbatim>\<open>destroy\<close> (up to the first of them that throws); no
  engine is created. The element is paused, its source is removed and it is reset by
  \<^verbatim>\<open>load()\<close>. All this is done when \<^verbatim>\<open>recoverCamera\<close> sets its one new timer, of
  1000 ms. That timer cannot fire before 1000 ms have passed, and when it fires it runs
  \<^verbatim>\<open>initializeStream\<close> for the slot only if the session is not destroyed and the page
  is visible then; otherwise it does nothing.
\<close>

theorem recoverCamera_resets:
  assumes g: "getCamera w index = Some (c, d)" and nd: "\<not> isDestroyed d"
  shows "let w' = recoverCamera index camera w; t = nextTimer w in
     sessions w' =
       (sessions w)[c := d\<lparr>stallCount := 0, lastPlaybackTime := 0, lastCheckTime := 0,
                             retryCount := 0, eventCleanups := [], hls := None\<rparr>] \<and>
     (\<forall>h g. hls d = Some h \<and> lookup (engines w) h = Some g \<longrightarrow>
        lookup (engines w') h =
          Some (g\<lparr>calls := calls g @
                   (if engineThrows w h StopLoad then [StopLoad]
                    else if engineThrows w h DetachMedia then [StopLoad, DetachMedia]
                    else [StopLoad, DetachMedia, DestroyEngine]),
                 handlers := filter (\<lambda>n. (h, n) \<notin> set (eventCleanups d)) (handlers g)\<rparr>)) \<and>
     length (engines w') = length (engines w) \<and>
     videos w' = (videos w)[element d := loadVideo (removeSrc (pauseVideo (videos w ! element d)))] \<and>
     timers w' = timers w @ [\<lparr>callback = RecoverReinit c index camera, delay = 1000,
                               setAt = clock w, repeats = False, pending = True\<rparr>] \<and>
     (\<forall>u. lookup (timers u) t = lookup (timers w') t \<longrightarrow>
          (canFire t u \<longrightarrow> clock w + 1000 \<le> clock u) \<and>
          fireTimer t u =
            (let u1 = updTimer t (\<lambda>y. y\<lparr>pending := False\<rparr>) u
             in if notDestroyed c u \<and> isPageVisible u then initializeStream index camera u1 else u1))"
proof -
  let ?r = "d\<lparr>stallCount := 0, lastPlaybackTime := 0, lastCheckTime := 0, retryCount := 0\<rparr>"
  let ?w1 = "updSession c (\<lambda>x. x\<lparr>stallCount := 0, lastPlaybackTime := 0,
                                          lastCheckTime := 0, retryCount := 0\<rparr>) w"
  let ?w2 = "cleanupHls c ?w1"
  let ?w' = "recoverCamera index camera w"
  have c: "c < length (sessions w)" "sessions w ! c = d" using getCamera_SomeD[OF g] by simp_all
  have w': "?w' = setTimeout (RecoverReinit c index camera) 1000
                    (updVideo (element d) (\<lambda>v. loadVideo (removeSrc (pauseVideo v))) ?w2)"
    using g nd by (simp add: recoverCamera_def Let_def)
  have s1: "lookup (sessions ?w1) c = Some ?r" using c by (simp add: updSession_def)
  have s: "sessions ?w' =
      (sessions w)[c := d\<lparr>stallCount := 0, lastPlaybackTime := 0, lastCheckTime := 0, retryCount := 0,
               eventCleanups := [], hls := None\<rparr>]"
    using c by (simp add: w' cleanupHls_sessions prim)
  have t: "timers ?w' =
      timers w @ [\<lparr>callback = RecoverReinit c index camera, delay = 1000,
                               setAt = clock w, repeats = False, pending = True\<rparr>]"
    by (simp add: w' prim)
  have v: "videos ?w' = (videos w)[element d := loadVideo (removeSrc (pauseVideo (videos w ! element d)))]"
    by (simp add: w' prim)
  have el: "length (engines ?w') = length (engines w)"
    by (simp add: w' prim)
  have en: "lookup (engines ?w') h =
          Some (g\<lparr>calls := calls g @
                   (if engineThrows w h StopLoad then [StopLoad]
                    else if engineThrows w h DetachMedia then [StopLoad, DetachMedia]
                    else [StopLoad, DetachMedia, DestroyEngine]),
                 handlers := filter (\<lambda>n. (h, n) \<notin> set (eventCleanups d)) (handlers g)\<rparr>)"
    if "hls d = Some h" "lookup (engines w) h = Some g" for h g
  proof -
    have "hls ?r = Some h" "lookup (engines ?w1) h = Some g"
      using that by (simp_all add: updSession_def)
    from cleanupHls_engine[OF s1 this] show ?thesis
      by (simp add: w' prim)
  qed
  have u: "notDestroyed c (updTimer t f u) = notDestroyed c u" for t f u
    by (simp add: notDestroyed_def updTimer_def)
  have f: "\<forall>u. lookup (timers u) (nextTimer w) = lookup (timers ?w') (nextTimer w) \<longrightarrow>
          (canFire (nextTimer w) u \<longrightarrow> clock w + 1000 \<le> clock u) \<and>
          fireTimer (nextTimer w) u =
            (let u1 = updTimer (nextTimer w) (\<lambda>y. y\<lparr>pending := False\<rparr>) u
             in if notDestroyed c u \<and> isPageVisible u then initializeStream index camera u1 else u1)"
    by (auto simp: Let_def t nextTimer_def canFire_def due_def fireTimer_def u split: option.splits)
  from s en el v t f show ?thesis
    unfolding Let_def by blast
qed

theorem recoverCamera_resets_witness:
  "map_option (\<lambda>d. (stallCount d, retryCount d, lastPlaybackTime d, lastCheckTime d, hls d))
     (lookup (sessions kioskTroubled) 0) = Some (1, 1, 15 / 2, 4000, Some 0) \<and>
   (let w' = recoverCamera 0 camA kioskTroubled in
      map_option (\<lambda>d. (stallCount d, retryCount d, lastPlaybackTime d, lastCheckTime d, hls d))
        (lookup (sessions w') 0) = Some (0, 0, 0, 0, None) \<and>
      map_option (\<lambda>g. (calls g, handlers g)) (lookup (engines w') 0) =
        Some ([LoadSource ''a.m3u8?_cb=1000'', AttachMedia 0, StartLoad,
               StopLoad, DetachMedia, DestroyEngine], []) \<and>
      map_option (\<lambda>v. (paused v, src v, readyState v, currentTime v)) (lookup (videos w') 0) =
        Some (True, None, 0, 0) \<and>
      map (\<lambda>x. (callback x, delay x, pending x)) (drop 6 (timers w')) =
        [(RecoverReinit 0 0 camA, 1000, True)])"
proof -
  let ?d = "sessions kioskTroubled ! 0" and ?g = "engines kioskTroubled ! 0"
  have g: "getCamera kioskTroubled 0 = Some (0, ?d)"
    by (simp add: kioskTroubled_eq getCamera_def lookup_def)
  have nd: "\<not> isDestroyed ?d"
    by (simp add: kioskTroubled_eq)
  have v: "hls ?d = Some 0" "lookup (engines kioskTroubled) 0 = Some ?g"
    "eventCleanups ?d = map (Pair 0) allHlsEvents" "handlers ?g = allHlsEvents"
    "calls ?g = [LoadSource ''a.m3u8?_cb=1000'', AttachMedia 0, StartLoad]"
    "engineThrows kioskTroubled = (\<lambda>h x. False)" "element ?d = 0"
    "length (sessions kioskTroubled) = 2" "length (videos kioskTroubled) = 2"
    "length (timers kioskTroubled) = 6"
    by (simp_all add: kioskTroubled_eq lookup_def allHlsEvents_def)
  have b: "map_option (\<lambda>d. (stallCount d, retryCount d, lastPlaybackTime d, lastCheckTime d, hls d))
     (lookup (sessions kioskTroubled) 0) = Some (1, 1, 15 / 2, 4000, Some 0)"
    by (simp add: kioskTroubled_eq lookup_def)
  from recoverCamera_resets[OF g nd, of camA] v(1,2)
  have "let w' = recoverCamera 0 camA kioskTroubled in
      map_option (\<lambda>d. (stallCount d, retryCount d, lastPlaybackTime d, lastCheckTime d, hls d))
        (lookup (sessions w') 0) = Some (0, 0, 0, 0, None) \<and>
      map_option (\<lambda>g. (calls g, handlers g)) (lookup (engines w') 0) =
        Some ([LoadSource ''a.m3u8?_cb=1000'', AttachMedia 0, StartLoad,
               StopLoad, DetachMedia, DestroyEngine], []) \<and>
      map_option (\<lambda>v. (paused v, src v, readyState v, currentTime v)) (lookup (videos w') 0) =
        Some (True, None, 0, 0) \<and>
      map (\<lambda>x. (callback x, delay x, pending x)) (drop 6 (timers w')) =
        [(RecoverReinit 0 0 camA, 1000, True)]"
    by (simp add: Let_def v allHlsEvents_def loadVideo_def removeSrc_def pauseVideo_def)
  with b show ?thesis by simp
qed

section \<open>Seeking to the live edge\<close>




section \<open>Hiding the page\<close>

text \<open>
  Claim C9. When the page becomes hidden (and the manager's handler is registered): for
  every live session of the registry the sink is paused afterwards and its engine has
  received at least one more \<^verbatim>\<open>stopLoad\<close>; every engine has received nothing but
  \<^verbatim>\<open>stopLoad\<close> calls, so none is detached or destroyed, and every session keeps its
  engine reference (and its \<open>isDestroyed\<close> flag); the monitor's interval is cleared and
  \<open>healthCheckInterval\<close> is empty; and a health check that runs while the page is
  not visible changes nothing.
\<close>

theorem hiding_pauses_all:
  assumes vh: "visibilityHandler w"
  shows "let w' = visibilityChange True w in
     \<not> isPageVisible w' \<and> healthCheckInterval w' = None \<and>
     (\<forall>t x. healthCheckInterval w = Some t \<longrightarrow> lookup (timers w') t = Some x \<longrightarrow> \<not> pending x) \<and>
     (\<forall>u. \<not> isPageVisible u \<longrightarrow> checkAllCameraHealth u = u) \<and>
     streamHandles w' = streamHandles w \<and>
     onlyStopLoads (engines w) (engines w') \<and>
     (\<forall>ic \<in> set (cameras w). \<forall>d. lookup (sessions w) (snd ic) = Some d \<longrightarrow> \<not> isDestroyed d \<longrightarrow>
        (\<forall>v. lookup (videos w) (element d) = Some v \<longrightarrow>
           (\<exists>v'. lookup (videos w') (element d) = Some v' \<and> paused v')) \<and>
        (\<forall>h g. hls d = Some h \<longrightarrow> lookup (engines w) h = Some g \<longrightarrow>
           (\<exists>g' n. lookup (engines w') h = Some g' \<and>
                   calls g' = calls g @ replicate (Suc n) StopLoad)))"
proof -
  define w1 where "w1 = w\<lparr>isPageVisible := False\<rparr>"
  define w2 where "w2 = stopHealthMonitor w1"
  define w3 where "w3 = fold pauseOne (cameras w1) w2"
  define w' where "w' = stopHealthMonitor w3"
  have eq: "visibilityChange True w = w'"
    using vh by (simp add: visibilityChange_def pauseAllStreams_def w'_def w3_def w2_def w1_def)
  note e2 = stopHealthMonitor_effect[where w=w1, folded w2_def]
  note e3 = fold_pauseOne_effect[where xs="cameras w1" and w=w2, folded w3_def]
  note e4 = stopHealthMonitor_effect[where w=w3, folded w'_def]
  have h3: "healthCheckInterval w3 = None" using e3 e2(4) by simp
  have same4: "w' = w3" using h3 by (simp add: w'_def stopHealthMonitor_def)
  have vis: "\<not> isPageVisible w'"
    by (simp add: w'_def w3_def w2_def w1_def)
  have hci: "healthCheckInterval w' = None" by (rule e4(4))
  have tm: "\<not> pending x" if t: "healthCheckInterval w = Some t" and x: "lookup (timers w') t = Some x" for t x
  proof -
    from e2(5) e3 have len: "length (timers w') = length (timers w1)"
      by (simp add: same4 onlyCleared_def)
    from lookup_nthD[OF x] len have tl: "t < length (timers w1)" and xx: "timers w' ! t = x" by auto
    from t have "healthCheckInterval w1 = Some t" by (simp add: w1_def)
    from e2(6)[OF this tl] have "\<not> pending (timers w2 ! t)" .
    moreover have "t < length (timers w2)" using e2(5) tl by (simp add: onlyCleared_def)
    ultimately have "\<not> pending (timers w3 ! t)"
      using onlyCleared_nth[of "timers w2" "timers w3" t] e3 by blast
    then show ?thesis using xx same4 by simp
  qed
  have sh: "streamHandles w' = streamHandles w"
    using e3 e2(1) by (simp add: same4 streamHandles_def w1_def)
  have en: "onlyStopLoads (engines w) (engines w')"
    using e3 e2(3) by (simp add: same4 w1_def)
  have hit: "(\<forall>v. lookup (videos w) (element d) = Some v \<longrightarrow>
           (\<exists>v'. lookup (videos w') (element d) = Some v' \<and> paused v')) \<and>
        (\<forall>h g. hls d = Some h \<longrightarrow> lookup (engines w) h = Some g \<longrightarrow>
           (\<exists>g' n. lookup (engines w') h = Some g' \<and>
                   calls g' = calls g @ replicate (Suc n) StopLoad))"
    if ic: "ic \<in> set (cameras w)" and s: "lookup (sessions w) (snd ic) = Some d"
      and nd: "\<not> isDestroyed d" for ic d
  proof -
    have ic1: "ic \<in> set (cameras w1)" using ic by (simp add: w1_def)
    have s2: "lookup (sessions w2) (snd ic) = Some d" using s e2(1) by (simp add: w1_def)
    from fold_pauseOne_hit[OF ic1 s2 nd, folded w3_def] e2(2) e2(3)
    show ?thesis by (simp add: same4 w1_def)
  qed
  show ?thesis
    unfolding eq Let_def
    using vis hci tm sh en hit checkAllCameraHealth_hidden by blast
qed

theorem hiding_pauses_all_witness:
  "\<not> paused (videos kioskPlaying ! 0) \<and> pending (timers kioskPlaying ! 5) \<and>
   (\<exists>v'. lookup (videos (visibilityChange True kioskPlaying)) 0 = Some v' \<and> paused v') \<and>
   (\<exists>g' n. lookup (engines (visibilityChange True kioskPlaying)) 0 = Some g' \<and>
       calls g' = [LoadSource ''a.m3u8?_cb=1000'', AttachMedia 0] @ replicate (Suc n) StopLoad) \<and>
   map fst (streamHandles (visibilityChange True kioskPlaying)) = [Some 0, Some 1] \<and>
   healthCheckInterval (visibilityChange True kioskPlaying) = None \<and>
   (\<exists>x. lookup (timers (visibilityChange True kioskPlaying)) 5 = Some x \<and> \<not> pending x)"
proof -
  note f = kioskPlaying_facts
  let ?w' = "visibilityChange True kioskPlaying"
  note th = hiding_pauses_all[OF f(1), unfolded Let_def]
  have ic: "(0, 0) \<in> set (cameras kioskPlaying)" by (simp add: f)
  have s: "lookup (sessions kioskPlaying) (snd (0::nat, 0::nat)) = Some (sessions kioskPlaying ! 0)"
    by (simp add: lookup_def f)
  have v: "lookup (videos kioskPlaying) (element (sessions kioskPlaying ! 0)) = Some (videos kioskPlaying ! 0)"
    by (simp add: lookup_def f)
  have e: "lookup (engines kioskPlaying) 0 = Some (engines kioskPlaying ! 0)"
    by (simp add: lookup_def f)
  from th have hit: "\<forall>ic\<in>set (cameras kioskPlaying). \<forall>d. lookup (sessions kioskPlaying) (snd ic) = Some d \<longrightarrow>
        \<not> isDestroyed d \<longrightarrow>
        (\<forall>v. lookup (videos kioskPlaying) (element d) = Some v \<longrightarrow>
           (\<exists>v'. lookup (videos ?w') (element d) = Some v' \<and> paused v')) \<and>
        (\<forall>h g. hls d = Some h \<longrightarrow> lookup (engines kioskPlaying) h = Some g \<longrightarrow>
           (\<exists>g' n. lookup (engines ?w') h = Some g' \<and>
                   calls g' = calls g @ replicate (Suc n) StopLoad))"
    by blast
  from hit[rule_format, OF ic s f(8)] v e f(10) f(12) f(16)
  have a: "\<exists>v'. lookup (videos ?w') 0 = Some v' \<and> paused v'"
    and b: "\<exists>g' n. lookup (engines ?w') 0 = Some g' \<and>
       calls g' = [LoadSource ''a.m3u8?_cb=1000'', AttachMedia 0] @ replicate (Suc n) StopLoad"
    by auto
  from th have sh: "streamHandles ?w' = streamHandles kioskPlaying" by blast
  have c: "map fst (streamHandles ?w') = [Some 0, Some 1]"
    unfolding sh by (simp add: streamHandles_def kioskPlaying_eq)
  from th have d: "healthCheckInterval ?w' = None" by blast
  from th have tm: "\<forall>t x. healthCheckInterval kioskPlaying = Some t \<longrightarrow>
       lookup (timers ?w') t = Some x \<longrightarrow> \<not> pending x" by blast
  have len: "length (timers ?w') = 6"
    by (simp add: visibilityChange_def pauseAllStreams_def stopHealthMonitor_def pauseOne_def Let_def
          lookup_def prim kioskPlaying_eq)
  have t5: "lookup (timers ?w') 5 = Some (timers ?w' ! 5)" using len by (simp add: lookup_def)
  from tm[rule_format, OF f(3) t5] t5
  have e5: "\<exists>x. lookup (timers ?w') 5 = Some x \<and> \<not> pending x" by blast
  show ?thesis using a b c d e5 f(14) f(18) by blast
qed

section \<open>The layout of the grid\<close>

text \<open>
  Claim C10, amended. For every integer \<open>numItems\<close>, \<^verbatim>\<open>calculateGridLayout\<close> returns
  columns in \<open>{1, 2, 3, 4, 6}\<close> and \<open>rows = ceil (clamp numItems 1 18 / columns)\<close>, so
  \<open>columns * rows \<ge> clamp numItems 1 18\<close>. Consequently, after
  \<^verbatim>\<open>updateGridLayout\<close> the configured grid has at least as many cells as the clamped
  camera count, and \<^verbatim>\<open>setupGrid\<close> then creates a session for every slot below that
  count. In general \<^verbatim>\<open>setupGrid\<close> creates sessions exactly for the configured slots
  below \<open>min (columns * rows) numCameras\<close>, with the columns and rows of the
  configuration as they are: \<^verbatim>\<open>updateConfig\<close> takes them from its argument and does
  not compute them.
\<close>

theorem grid_has_room:
  "(let l = calculateGridLayout numItems; k = clamp numItems 1 18 in
      columns l \<in> {1, 2, 3, 4, 6} \<and>
      rows l = \<lceil>real_of_int k / real_of_int (columns l)\<rceil> \<and>
      k \<le> columns l * rows l \<and>
      (gridElement w \<noteq> None \<longrightarrow>
         (let w1 = updateGridLayout numItems w in
            numCameras (config w1) = k \<and>
            numCameras (config w1) \<le> columns (config w1) * rows (config w1) \<and>
            map fst (cameras (setupGrid w1)) = [0..<nat k]))) \<and>
   (gridElement w \<noteq> None \<longrightarrow>
      map fst (cameras (setupGrid w)) =
        filter (\<lambda>i. i < length (cameraConfigs w))
          [0..<nat (min (columns (config w) * rows (config w)) (numCameras (config w)))])"
proof -
  define k where "k = clamp numItems 1 18"
  let ?w1 = "updateGridLayout numItems w"
  have idem: "clamp k 1 18 = k" by (simp add: k_def clamp_def)
  have cfg: "config ?w1 = \<lparr>columns = columns (calculateGridLayout k),
                            rows = rows (calculateGridLayout k), numCameras = k\<rparr>"
    "gridElement ?w1 = gridElement w" "nat k \<le> length (cameraConfigs ?w1)"
    by (simp_all add: updateGridLayout_def Let_def k_def)
  have room: "k \<le> columns (calculateGridLayout k) * rows (calculateGridLayout k)"
    using calculateGridLayout_room(3)[of k] by (simp add: idem)
  have slots: "map fst (cameras (setupGrid ?w1)) = [0..<nat k]" if "gridElement w \<noteq> None"
  proof -
    have "gridElement ?w1 \<noteq> None" using that by (simp add: cfg)
    from setupGrid_cameras[OF this] room cfg(3) show ?thesis
      by (simp add: cfg(1) min_def)
  qed
  show ?thesis
    using calculateGridLayout_room[of numItems] slots room setupGrid_cameras[of w]
    by (simp add: Let_def cfg flip: k_def)
qed

theorem grid_has_room_witness:
  "columns (calculateGridLayout 5) = 3 \<and> rows (calculateGridLayout 5) = 2 \<and>
   config (updateGridLayout 5 kioskConfigured) = \<lparr>columns = 3, rows = 2, numCameras = 5\<rparr> \<and>
   map fst (cameras (setupGrid (updateGridLayout 5 kioskConfigured))) = [0, 1, 2, 3, 4] \<and>
   map fst (cameras (setupGrid kioskConfigured)) = [0, 1]"
proof -
  have g: "gridElement kioskConfigured \<noteq> None" "length (cameraConfigs kioskConfigured) = 2"
    "config kioskConfigured = \<lparr>columns = 2, rows = 1, numCameras = 2\<rparr>"
    by (simp_all add: kioskConfigured_eq)
  have c: "clamp 5 1 18 = 5" by (simp add: clamp_def)
  have l: "calculateGridLayout 5 = \<lparr>columns = 3, rows = 2\<rparr>"
    by (simp add: calculateGridLayout_def clamp_def Let_def ceiling_divide_eq_div_numeral)
  have u: "[0..<5] = [0, 1, 2, 3, 4]" "[0..<2] = [0, 1]" by (simp_all add: upt_rec)
  from grid_has_room[of 5 kioskConfigured] g(1) show ?thesis
    by (simp add: Let_def c l u g(2,3) updateGridLayout_def)
qed

theorem grid_without_room:
  "config cramped = \<lparr>columns = 1, rows = 1, numCameras = 2\<rparr> \<and>
   cameraConfigs cramped = [camA, camB] \<and> url camB \<noteq> [] \<and>
   map fst (cameras cramped) = [0] \<and>
   \<not> numCameras (config cramped) \<le> columns (config cramped) * rows (config cramped)"
proof -
  define w where
    "w = run [CallInit, CallUpdateConfig [camA, camB] (Some \<lparr>columns = 1, rows = 1, numCameras = 2\<rparr>)]
           freshPage"
  have w: "gridElement w \<noteq> None" "cameraConfigs w = [camA, camB]"
    "config w = \<lparr>columns = 1, rows = 1, numCameras = 2\<rparr>"
    by (simp_all add: w_def run_def freshPage_def newManager_def init_def updateConfig_def orOne_def
          clamp_def)
  have c: "cramped = setupGrid w" by (simp add: cramped_def w_def run_def)
  have u: "url camB \<noteq> []" by (simp add: camB_def)
  show ?thesis
    unfolding c using setupGrid_cameras[OF w(1)] u by (simp add: setupGrid_configs w)
qed

end
